theory Spec2Isabelle
  imports Main "HOL-Library.Sublist"
begin

section \<open>Permission vocabulary (src/permissions.ts)\<close>

text \<open>
  The TypeScript type \<open>Permission\<close> is a closed union of seven string literals;
  a manifest can hold no other value, so the type is a datatype with one constructor
  per literal.
\<close>

datatype Permission =
    FILESYSTEM_READ
  | FILESYSTEM_WRITE
  | FILESYSTEM_DELETE
  | NETWORK_CLIENT
  | NETWORK_SERVER
  | SYSTEM_ENV_READ
  | SYSTEM_EXEC

section \<open>Manifest and effective permissions (src/manifest/schema.ts)\<close>

record AgentManifest =
  description :: string
  permissions :: "Permission list"

text \<open>
  An optional field \<open>f?: T\<close> is \<open>T option\<close>: \<open>None\<close> is the absent field
  (\<open>undefined\<close>). The three nested structs of \<open>EffectivePermissions\<close> are anonymous
  in the source; they are named after their category here, and the fields \<open>read\<close>,
  \<open>write\<close> and \<open>delete\<close> carry the prefix \<open>fs_\<close>. Ports are JavaScript numbers in
  the source and integers here.
\<close>

record FilesystemPerms =
  fs_read :: "string list option"
  fs_write :: "string list option"
  fs_delete :: "string list option"

record NetworkPerms =
  allowedHosts :: "string list option"
  listenPorts :: "int list option"

record SystemPerms =
  envVars :: "string list option"
  allowedCommands :: "string list option"

record EffectivePermissions =
  filesystem :: "FilesystemPerms option"
  network :: "NetworkPerms option"
  system :: "SystemPerms option"

section \<open>Audit log (src/box/audit.ts)\<close>

datatype AuditDecision = Allow | Deny

record AuditEntry =
  timestamp :: string
  permission :: string
  resource :: string
  decision :: AuditDecision
  detail :: "string option"

text \<open>
  The log keeps its entries in a JavaScript array that \<open>record\<close> mutates in place
  (\<open>push\<close>), that \<open>clear\<close> replaces by a new array, and of which \<open>all\<close> and
  \<open>denied\<close> hand out new arrays. Arrays therefore live in a store, addressed by
  references: \<open>arrays\<close> gives the contents at every address, \<open>next_addr\<close> is the
  first address not yet allocated, and \<open>entries\<close> is the private field
  \<open>this.entries\<close> of the one \<open>AuditLog\<close> object, a reference into the store.
  The entries themselves are values: the log never writes to an entry once it is
  pushed, and the copies it hands out are copies of the array.
\<close>

type_synonym addr = nat

record state =
  arrays :: "addr \<Rightarrow> AuditEntry list"
  next_addr :: addr
  entries :: addr

text \<open>The store before anything is allocated.\<close>

definition empty_store :: state where
  "empty_store = \<lparr>arrays = (\<lambda>_. []), next_addr = 0, entries = 0\<rparr>"

text \<open>An array literal or an array-returning builtin allocates a new array.\<close>

definition new_array :: "AuditEntry list \<Rightarrow> state \<Rightarrow> addr \<times> state" where
  "new_array xs s =
     (next_addr s,
      s\<lparr>arrays := (arrays s)(next_addr s := xs), next_addr := Suc (next_addr s)\<rparr>)"

text \<open>A write through a reference, as any holder of the reference can do.\<close>

definition array_write :: "addr \<Rightarrow> AuditEntry list \<Rightarrow> state \<Rightarrow> state" where
  "array_write a xs s = s\<lparr>arrays := (arrays s)(a := xs)\<rparr>"

text \<open>The field initialiser \<open>private entries: AuditEntry[] = []\<close> of the constructor.\<close>

definition new_AuditLog :: "state \<Rightarrow> state" where
  "new_AuditLog s = (case new_array [] s of (a, s') \<Rightarrow> s'\<lparr>entries := a\<rparr>)"

text \<open>
  \<open>AuditLog.record\<close>: the time stamp \<open>new Date().toISOString()\<close> is read from the
  clock; it is the argument \<open>now\<close>.
\<close>

definition audit_record ::
  "string \<Rightarrow> string \<Rightarrow> string \<Rightarrow> AuditDecision \<Rightarrow> string option \<Rightarrow> state \<Rightarrow> state" where
  "audit_record now perm res dec det s =
     array_write (entries s)
       (arrays s (entries s) @
          [\<lparr>timestamp = now, permission = perm, resource = res, decision = dec, detail = det\<rparr>])
       s"

text \<open>\<open>AuditLog.all\<close>: the spread \<open>[...this.entries]\<close> is a new array.\<close>

definition audit_all :: "state \<Rightarrow> addr \<times> state" where
  "audit_all s = new_array (arrays s (entries s)) s"

text \<open>\<open>AuditLog.denied\<close>: \<open>Array.prototype.filter\<close> returns a new array.\<close>

definition audit_denied :: "state \<Rightarrow> addr \<times> state" where
  "audit_denied s = new_array (filter (\<lambda>e. decision e = Deny) (arrays s (entries s))) s"

text \<open>\<open>AuditLog.clear\<close>: \<open>this.entries = []\<close> points the field at a new array.\<close>

definition audit_clear :: "state \<Rightarrow> state" where
  "audit_clear s = (case new_array [] s of (a, s') \<Rightarrow> s'\<lparr>entries := a\<rparr>)"

text \<open>The contents of the log: the array its field refers to.\<close>

definition log_contents :: "state \<Rightarrow> AuditEntry list" where
  "log_contents s = arrays s (entries s)"

section \<open>Errors and the working directory\<close>

text \<open>A thrown \<open>Error\<close>, with its message.\<close>

datatype error = Error string

text \<open>
  \<open>process.cwd()\<close>. The working directory of the process is \<open>Some\<close> path while it
  exists and \<open>None\<close> once it has been removed; the call then throws.
\<close>

definition process_cwd :: "string option \<Rightarrow> error + string" where
  "process_cwd pcwd =
     (case pcwd of
        None \<Rightarrow> Inl (Error ''ENOENT: no such file or directory, uv_cwd'')
      | Some c \<Rightarrow> Inr c)"

section \<open>Paths (node:path, POSIX flavour)\<close>

text \<open>
  \<open>resolve\<close> and \<open>relative\<close> are primitives of the Node.js standard library. They
  are modelled on path segments, following the library's POSIX implementation:
  \<open>resolve\<close> prefixes a relative path with the working directory of the process,
  drops empty and \<open>.\<close> segments, lets \<open>..\<close> remove the segment before it (at the
  root of an absolute path it is dropped) and joins the rest with \<open>/\<close>;
  \<open>relative\<close> resolves both paths, removes their common leading segments, and
  answers one \<open>..\<close> for every segment left of the first path followed by the
  segments left of the second. \<open>resolve\<close> reads the working directory only for a
  path that is not absolute, and throws what \<open>process.cwd()\<close> throws.
\<close>

fun split_on :: "char \<Rightarrow> string \<Rightarrow> string list" where
  "split_on c [] = [[]]"
| "split_on c (x # xs) =
     (if x = c then [] # split_on c xs
      else (case split_on c xs of [] \<Rightarrow> [[x]] | w # ws \<Rightarrow> (x # w) # ws))"

fun join :: "string list \<Rightarrow> string" where
  "join [] = []"
| "join [x] = x"
| "join (x # y # ys) = x @ ''/'' @ join (y # ys)"

text \<open>
  The library's \<open>normalizeString\<close>, one segment at a time: \<open>res\<close> holds the segments
  kept so far, \<open>allowAboveRoot\<close> is set for a path that is not absolute.
\<close>

fun normalizeString :: "bool \<Rightarrow> string list \<Rightarrow> string list \<Rightarrow> string list" where
  "normalizeString allowAboveRoot res [] = res"
| "normalizeString allowAboveRoot res (seg # rest) =
     (if seg = [] \<or> seg = ''.'' then normalizeString allowAboveRoot res rest
      else if seg = ''..'' then
        (if res \<noteq> [] \<and> last res \<noteq> ''..'' then normalizeString allowAboveRoot (butlast res) rest
         else if allowAboveRoot then normalizeString allowAboveRoot (res @ [''..'']) rest
         else normalizeString allowAboveRoot res rest)
      else normalizeString allowAboveRoot (res @ [seg]) rest)"

text \<open>
  \<open>path.resolve(path)\<close> with one argument. The library's loop looks at the
  argument first and calls \<open>process.cwd()\<close> only when the argument is not absolute.
\<close>

definition resolve :: "string option \<Rightarrow> string \<Rightarrow> error + string" where
  "resolve pcwd path =
     (if path \<noteq> [] \<and> hd path = CHR ''/''
      then Inr (''/'' @ join (normalizeString False [] (split_on CHR ''/'' (path @ ''/''))))
      else
        (case process_cwd pcwd of
           Inl e \<Rightarrow> Inl e
         | Inr c \<Rightarrow>
             (let p1 = (if path = [] then [] else path @ ''/'');
                  resolvedPath = (if c = [] then p1 else c @ ''/'' @ p1);
                  resolvedAbsolute = (c \<noteq> [] \<and> hd c = CHR ''/'');
                  res = join (normalizeString (\<not> resolvedAbsolute) []
                                (split_on CHR ''/'' resolvedPath))
              in Inr (if resolvedAbsolute then ''/'' @ res
                      else if res \<noteq> [] then res else ''.''))))"

text \<open>The segments of a resolved path.\<close>

definition segments :: "string \<Rightarrow> string list" where
  "segments p = filter (\<lambda>seg. seg \<noteq> []) (split_on CHR ''/'' p)"

fun drop_common :: "string list \<Rightarrow> string list \<Rightarrow> string list \<times> string list" where
  "drop_common (x # xs) (y # ys) = (if x = y then drop_common xs ys else (x # xs, y # ys))"
| "drop_common xs ys = (xs, ys)"

text \<open>\<open>path.relative(from, to)\<close>.\<close>

definition relative :: "string option \<Rightarrow> string \<Rightarrow> string \<Rightarrow> error + string" where
  "relative pcwd from to =
     (if from = to then Inr []
      else
        (case resolve pcwd from of
           Inl e \<Rightarrow> Inl e
         | Inr from' \<Rightarrow>
             (case resolve pcwd to of
                Inl e \<Rightarrow> Inl e
              | Inr to' \<Rightarrow>
                  Inr (if from' = to' then []
                       else (case drop_common (segments from') (segments to') of
                               (up, down) \<Rightarrow> join (replicate (length up) ''..'' @ down))))))"

text \<open>
  \<open>Array.prototype.some\<close> with a callback that may throw: the elements are tried
  in order, the first true answer ends the search, and so does a throw.
\<close>

fun array_some :: "('a \<Rightarrow> error + bool) \<Rightarrow> 'a list \<Rightarrow> error + bool" where
  "array_some f [] = Inr False"
| "array_some f (x # xs) =
     (case f x of
        Inl e \<Rightarrow> Inl e
      | Inr ok \<Rightarrow> if ok then Inr True else array_some f xs)"

text \<open>\<open>String.prototype.startsWith\<close>.\<close>

definition startsWith :: "string \<Rightarrow> string \<Rightarrow> bool" where
  "startsWith s p = (take (length p) s = p)"

section \<open>Permission checker (src/box/checker.ts)\<close>

text \<open>
  A checker holds the effective permissions and a reference to the audit log. Each
  method takes the clock reading \<open>now\<close> used by the one \<open>record\<close> call it makes, the
  permissions, its argument and the state, and returns its boolean with the new state.
  The filesystem checks also take the working directory that \<open>resolve\<close> reads; they
  call \<open>resolve\<close> before they record, so a throw of \<open>resolve\<close> leaves the method
  with the state as it was and is the \<open>Inl\<close> of their result. The local \<open>abs\<close> of
  the source is \<open>abs_path\<close> here.
  Optional chaining \<open>perms.c?.f\<close> is \<open>Option.bind (c perms) f\<close>; an array is never
  falsy, so \<open>!allowed\<close> holds exactly of the absent list.
\<close>

datatype fs_action = Read | Write | Delete

fun action_name :: "fs_action \<Rightarrow> string" where
  "action_name Read = ''read''"
| "action_name Write = ''write''"
| "action_name Delete = ''delete''"

fun action_paths :: "fs_action \<Rightarrow> FilesystemPerms \<Rightarrow> string list option" where
  "action_paths Read = fs_read"
| "action_paths Write = fs_write"
| "action_paths Delete = fs_delete"

definition decision_of :: "bool \<Rightarrow> AuditDecision" where
  "decision_of ok = (if ok then Allow else Deny)"

definition checkFilesystem ::
  "string option \<Rightarrow> string \<Rightarrow> EffectivePermissions \<Rightarrow> fs_action \<Rightarrow> string \<Rightarrow> string \<Rightarrow> state
     \<Rightarrow> (error + bool) \<times> state" where
  "checkFilesystem pcwd now perms action filePath permName s =
     (case Option.bind (filesystem perms) (action_paths action) of
        None \<Rightarrow>
          (Inr False,
           audit_record now permName filePath Deny
             (Some (''No filesystem.'' @ action_name action @ '' permission'')) s)
      | Some paths \<Rightarrow>
          (case resolve pcwd filePath of
             Inl e \<Rightarrow> (Inl e, s)
           | Inr abs_path \<Rightarrow>
               (case array_some
                       (\<lambda>allowed.
                          case resolve pcwd allowed of
                            Inl e \<Rightarrow> Inl e
                          | Inr allowedAbs \<Rightarrow>
                              (case relative pcwd allowedAbs abs_path of
                                 Inl e \<Rightarrow> Inl e
                               | Inr rel \<Rightarrow>
                                   Inr (\<not> startsWith rel ''..'' \<and> \<not> startsWith rel ''/'')))
                       paths of
                  Inl e \<Rightarrow> (Inl e, s)
                | Inr ok \<Rightarrow>
                    (Inr ok, audit_record now permName filePath (decision_of ok) None s))))"

definition checkFileRead ::
  "string option \<Rightarrow> string \<Rightarrow> EffectivePermissions \<Rightarrow> string \<Rightarrow> state
     \<Rightarrow> (error + bool) \<times> state" where
  "checkFileRead pcwd now perms filePath s =
     checkFilesystem pcwd now perms Read filePath ''mcp.ac.filesystem.read'' s"

definition checkFileWrite ::
  "string option \<Rightarrow> string \<Rightarrow> EffectivePermissions \<Rightarrow> string \<Rightarrow> state
     \<Rightarrow> (error + bool) \<times> state" where
  "checkFileWrite pcwd now perms filePath s =
     checkFilesystem pcwd now perms Write filePath ''mcp.ac.filesystem.write'' s"

definition checkFileDelete ::
  "string option \<Rightarrow> string \<Rightarrow> EffectivePermissions \<Rightarrow> string \<Rightarrow> state
     \<Rightarrow> (error + bool) \<times> state" where
  "checkFileDelete pcwd now perms filePath s =
     checkFilesystem pcwd now perms Delete filePath ''mcp.ac.filesystem.delete'' s"

definition checkNetworkClient ::
  "string \<Rightarrow> EffectivePermissions \<Rightarrow> string \<Rightarrow> state \<Rightarrow> bool \<times> state" where
  "checkNetworkClient now perms host s =
     (case Option.bind (network perms) allowedHosts of
        None \<Rightarrow>
          (False,
           audit_record now ''mcp.ac.network.client'' host Deny
             (Some ''No network.client permission'') s)
      | Some allowed \<Rightarrow>
          (let ok = (''*'' \<in> set allowed \<or> host \<in> set allowed)
           in (ok, audit_record now ''mcp.ac.network.client'' host (decision_of ok) None s)))"

text \<open>
  \<open>String(port)\<close> of an integer: its decimal digits, with a sign when negative.
  This is the text JavaScript gives to an integer of magnitude below \<open>10\<^sup>2\<^sup>1\<close>, which
  covers every port number; beyond it JavaScript writes an exponent.
\<close>

fun digits :: "nat \<Rightarrow> string" where
  "digits n =
     (if n < 10 then [char_of (48 + n)]
      else digits (n div 10) @ [char_of (48 + n mod 10)])"

definition String :: "int \<Rightarrow> string" where
  "String i = (if i < 0 then ''-'' @ digits (nat (- i)) else digits (nat i))"

definition checkNetworkServer ::
  "string \<Rightarrow> EffectivePermissions \<Rightarrow> int \<Rightarrow> state \<Rightarrow> bool \<times> state" where
  "checkNetworkServer now perms port s =
     (case Option.bind (network perms) listenPorts of
        None \<Rightarrow>
          (False,
           audit_record now ''mcp.ac.network.server'' (String port) Deny
             (Some ''No network.server permission'') s)
      | Some allowed \<Rightarrow>
          (let ok = (port \<in> set allowed)
           in (ok, audit_record now ''mcp.ac.network.server'' (String port) (decision_of ok) None s)))"

definition checkEnvRead ::
  "string \<Rightarrow> EffectivePermissions \<Rightarrow> string \<Rightarrow> state \<Rightarrow> bool \<times> state" where
  "checkEnvRead now perms name s =
     (case Option.bind (system perms) envVars of
        None \<Rightarrow>
          (False,
           audit_record now ''mcp.ac.system.env.read'' name Deny
             (Some ''No system.env.read permission'') s)
      | Some allowed \<Rightarrow>
          (let ok = (name \<in> set allowed)
           in (ok, audit_record now ''mcp.ac.system.env.read'' name (decision_of ok) None s)))"

definition checkExec ::
  "string \<Rightarrow> EffectivePermissions \<Rightarrow> string \<Rightarrow> state \<Rightarrow> bool \<times> state" where
  "checkExec now perms command s =
     (case Option.bind (system perms) allowedCommands of
        None \<Rightarrow>
          (False,
           audit_record now ''mcp.ac.system.exec'' command Deny
             (Some ''No system.exec permission'') s)
      | Some allowed \<Rightarrow>
          (let ok = (allowed = [] \<or> command \<in> set allowed)
           in (ok, audit_record now ''mcp.ac.system.exec'' command (decision_of ok) None s)))"

section \<open>Policy resolution (src/box/policy.ts)\<close>

text \<open>
  The operator's overrides. Four field names of the source are also field names of the
  effective permissions; they carry the suffix \<open>_ov\<close> here.
\<close>

record PolicyOverrides =
  readPaths :: "string list option"
  writePaths :: "string list option"
  deletePaths :: "string list option"
  allowedHosts_ov :: "string list option"
  listenPorts_ov :: "int list option"
  envVars_ov :: "string list option"
  allowedCommands_ov :: "string list option"

text \<open>The default value \<open>{}\<close> of the parameter \<open>overrides\<close>.\<close>

definition no_overrides :: PolicyOverrides where
  "no_overrides =
     \<lparr>readPaths = None, writePaths = None, deletePaths = None, allowedHosts_ov = None,
      listenPorts_ov = None, envVars_ov = None, allowedCommands_ov = None\<rparr>"

text \<open>The operator \<open>a ?? b\<close>.\<close>

fun nullish :: "'a option \<Rightarrow> 'a \<Rightarrow> 'a" where
  "nullish None b = b"
| "nullish (Some a) b = a"

text \<open>
  \<open>resolvePolicy\<close>; \<open>pcwd\<close> is what \<open>process.cwd()\<close> answers, in a process whose
  working directory exists. Each category starts from the
  empty struct and receives its fields in the order of the source, so that the
  delete paths read the write paths already resolved.
\<close>

definition resolvePolicy ::
  "string \<Rightarrow> AgentManifest \<Rightarrow> PolicyOverrides \<Rightarrow> EffectivePermissions" where
  "resolvePolicy pcwd manifest overrides =
     (let perms = set (permissions manifest);
          fs =
            (if FILESYSTEM_READ \<in> perms \<or> FILESYSTEM_WRITE \<in> perms \<or> FILESYSTEM_DELETE \<in> perms
             then
               (let f0 = \<lparr>fs_read = None, fs_write = None, fs_delete = None\<rparr>;
                    f1 = (if FILESYSTEM_READ \<in> perms
                          then f0\<lparr>fs_read := Some (nullish (readPaths overrides) [pcwd])\<rparr>
                          else f0);
                    f2 = (if FILESYSTEM_WRITE \<in> perms
                          then f1\<lparr>fs_write := Some (nullish (writePaths overrides) [pcwd])\<rparr>
                          else f1);
                    f3 = (if FILESYSTEM_DELETE \<in> perms
                          then f2\<lparr>fs_delete :=
                                 Some (nullish (deletePaths overrides) (nullish (fs_write f2) [pcwd]))\<rparr>
                          else f2)
                in Some f3)
             else None);
          nw =
            (if NETWORK_CLIENT \<in> perms \<or> NETWORK_SERVER \<in> perms
             then
               (let n0 = \<lparr>allowedHosts = None, listenPorts = None\<rparr>;
                    n1 = (if NETWORK_CLIENT \<in> perms
                          then n0\<lparr>allowedHosts := Some (nullish (allowedHosts_ov overrides) [''*''])\<rparr>
                          else n0);
                    n2 = (if NETWORK_SERVER \<in> perms
                          then n1\<lparr>listenPorts := Some (nullish (listenPorts_ov overrides) [])\<rparr>
                          else n1)
                in Some n2)
             else None);
          sy =
            (if SYSTEM_ENV_READ \<in> perms \<or> SYSTEM_EXEC \<in> perms
             then
               (let s0 = \<lparr>envVars = None, allowedCommands = None\<rparr>;
                    s1 = (if SYSTEM_ENV_READ \<in> perms
                          then s0\<lparr>envVars := Some (nullish (envVars_ov overrides) [])\<rparr>
                          else s0);
                    s2 = (if SYSTEM_EXEC \<in> perms
                          then s1\<lparr>allowedCommands := Some (nullish (allowedCommands_ov overrides) [])\<rparr>
                          else s1)
                in Some s2)
             else None)
      in \<lparr>filesystem = fs, network = nw, system = sy\<rparr>)"

section \<open>Sandbox launcher (src/box/sandbox.ts)\<close>

definition ALWAYS_ALLOWED :: "string list" where
  "ALWAYS_ALLOWED = [''PATH'', ''HOME'', ''USER'', ''LANG'', ''TERM'', ''NODE_ENV'']"

text \<open>\<open>new Set(xs)\<close>, as the sequence its iteration yields: first occurrences, in order.\<close>

definition Set_of :: "string list \<Rightarrow> string list" where
  "Set_of xs = fold (\<lambda>x acc. if x \<in> set acc then acc else acc @ [x]) xs []"

text \<open>
  The launching environment \<open>penv\<close> maps the names of its variables to their values.
  \<open>process.env\<close> is a JavaScript object over it, and \<open>process.env[key]\<close> is a
  property lookup: it answers the variable of that name when the environment
  defines one, and otherwise what the object inherits from \<open>Object.prototype\<close>
  under that name, which is a function or, for \<open>__proto__\<close>, the prototype itself.
  Only a name that is neither is \<open>undefined\<close>. A value is therefore the string of a
  variable or an inherited member, known by its name.
\<close>

datatype env_value = Str string | Inherited string

definition Object_prototype :: "string list" where
  "Object_prototype =
     [''constructor'', ''__defineGetter__'', ''__defineSetter__'', ''hasOwnProperty'',
      ''__lookupGetter__'', ''__lookupSetter__'', ''isPrototypeOf'', ''propertyIsEnumerable'',
      ''toString'', ''valueOf'', ''__proto__'', ''toLocaleString'']"

definition process_env :: "(string \<rightharpoonup> string) \<Rightarrow> string \<Rightarrow> env_value option" where
  "process_env penv key =
     (case penv key of
        Some v \<Rightarrow> Some (Str v)
      | None \<Rightarrow> if key \<in> set Object_prototype then Some (Inherited key) else None)"

text \<open>
  The assignment \<open>env[key] = value\<close> on the plain object \<open>env\<close>, as a map of its own
  properties: it creates or replaces the property, except under the name
  \<open>__proto__\<close>, where it is the inherited setter that runs and no property appears.
\<close>

definition assign :: "(string \<rightharpoonup> env_value) \<Rightarrow> string \<Rightarrow> env_value \<Rightarrow> (string \<rightharpoonup> env_value)" where
  "assign env key v = (if key = ''__proto__'' then env else env(key \<mapsto> v))"

text \<open>
  \<open>buildEnvironment\<close>. The result is the object handed to \<open>spawn\<close>, as the map of
  its own properties.
\<close>

definition buildEnvironment ::
  "EffectivePermissions \<Rightarrow> (string \<rightharpoonup> string) \<Rightarrow> (string \<rightharpoonup> env_value)" where
  "buildEnvironment perms penv =
     (let allowed = Set_of (ALWAYS_ALLOWED @ nullish (Option.bind (system perms) envVars) []);
          env = fold (\<lambda>key env. case process_env penv key of
                                   None \<Rightarrow> env
                                 | Some v \<Rightarrow> assign env key v)
                  allowed Map.empty
      in if Option.bind (system perms) allowedCommands = None
         then assign env ''PATH'' (Str ''/usr/local/bin:/usr/bin:/bin'')
         else env)"

datatype stdio_mode = Pipe | Inherit

text \<open>
  Field names shared with other records carry a suffix: \<open>permissions_so\<close> of the
  options, \<open>permissions_sp\<close> of the handle.
\<close>

record SandboxOptions =
  command :: "string list"
  cwd :: "string option"
  permissions_so :: EffectivePermissions
  stdio :: "stdio_mode option"

text \<open>
  The operating system, as far as the launcher touches it: the child processes
  created so far, each with the arguments \<open>spawn\<close> received. A \<open>ChildProcess\<close>
  handle is the position of its process in that sequence. \<open>spawn\<close> throws on an
  empty file name, before it creates anything.
\<close>

record child =
  child_cmd :: string
  child_args :: "string list"
  child_cwd :: string
  child_env :: "string \<rightharpoonup> env_value"
  child_stdio :: stdio_mode

type_synonym os = "child list"

definition spawn ::
  "string \<Rightarrow> string list \<Rightarrow> string \<Rightarrow> (string \<rightharpoonup> env_value) \<Rightarrow> stdio_mode \<Rightarrow> os
     \<Rightarrow> (error + nat) \<times> os" where
  "spawn cmd args dir env io procs =
     (if cmd = [] then (Inl (Error ''ERR_INVALID_ARG_VALUE: the argument file cannot be empty''), procs)
      else
        (Inr (length procs),
         procs @ [\<lparr>child_cmd = cmd, child_args = args, child_cwd = dir, child_env = env,
                   child_stdio = io\<rparr>]))"

record SandboxedProcess =
  process :: nat
  permissions_sp :: EffectivePermissions

text \<open>
  \<open>launchSandbox\<close>. The empty string is falsy, so \<open>cwd ? resolve(cwd) : process.cwd()\<close>
  resolves a non-empty \<open>cwd\<close> only. What \<open>resolve\<close>, \<open>process.cwd()\<close> or \<open>spawn\<close>
  throws leaves the function.
\<close>

definition launchSandbox ::
  "string option \<Rightarrow> (string \<rightharpoonup> string) \<Rightarrow> SandboxOptions \<Rightarrow> os
     \<Rightarrow> (error + SandboxedProcess) \<times> os" where
  "launchSandbox pcwd penv options procs =
     (case command options of
        [] \<Rightarrow> (Inl (Error ''command must contain at least one element''), procs)
      | cmd # args \<Rightarrow>
          (let env = buildEnvironment (permissions_so options) penv
           in case (case cwd options of
                      None \<Rightarrow> process_cwd pcwd
                    | Some c \<Rightarrow> if c \<noteq> [] then resolve pcwd c else process_cwd pcwd) of
                Inl e \<Rightarrow> (Inl e, procs)
              | Inr resolvedCwd \<Rightarrow>
                  (case spawn cmd args resolvedCwd env (nullish (stdio options) Pipe) procs of
                     (Inl e, procs') \<Rightarrow> (Inl e, procs')
                   | (Inr child, procs') \<Rightarrow>
                       (Inr \<lparr>process = child, permissions_sp = permissions_so options\<rparr>,
                        procs'))))"

section \<open>Enforcement facade (src/box/index.ts)\<close>

record AgentBoxOptions =
  manifest :: AgentManifest
  overrides :: "PolicyOverrides option"
  command_ab :: "string list"
  cwd_ab :: "string option"

text \<open>
  The instance: its \<open>checker\<close> and \<open>audit\<close> are the effective permissions together
  with the audit log of the state returned beside it. As in \<open>resolvePolicy\<close>,
  \<open>pcwd\<close> is the working directory of a process that has one.
\<close>

record AgentBoxInstance =
  sandbox :: SandboxedProcess
  effectivePermissions :: EffectivePermissions

definition createAgentBox ::
  "string \<Rightarrow> (string \<rightharpoonup> string) \<Rightarrow> AgentBoxOptions \<Rightarrow> state \<Rightarrow> os
     \<Rightarrow> (error + AgentBoxInstance) \<times> state \<times> os" where
  "createAgentBox pcwd penv options s procs =
     (let eff = resolvePolicy pcwd (manifest options) (nullish (overrides options) no_overrides);
          s' = new_AuditLog s
      in case launchSandbox (Some pcwd) penv
                \<lparr>command = command_ab options, cwd = cwd_ab options, permissions_so = eff,
                 stdio = None\<rparr> procs of
           (Inl e, procs') \<Rightarrow> (Inl e, s', procs')
         | (Inr sb, procs') \<Rightarrow> (Inr \<lparr>sandbox = sb, effectivePermissions = eff\<rparr>, s', procs'))"

section \<open>Path containment, as the specification words it\<close>

text \<open>
  The specification's containment: the canonical form of the root equals the
  canonical form of the path or is a proper ancestor of it, that is, the segments of
  the one are a prefix of the segments of the other.
\<close>

definition spec_contains :: "string option \<Rightarrow> string \<Rightarrow> string \<Rightarrow> bool" where
  "spec_contains pcwd root p =
     (case resolve pcwd root of
        Inl e \<Rightarrow> False
      | Inr r \<Rightarrow>
          (case resolve pcwd p of
             Inl e \<Rightarrow> False
           | Inr q \<Rightarrow> prefix (segments r) (segments q)))"

text \<open>
  The segments that \<open>resolve\<close> leaves in an absolute path: not empty, neither \<open>.\<close>
  nor \<open>..\<close>, and free of the separator.
\<close>

definition clean_segment :: "string \<Rightarrow> bool" where
  "clean_segment seg = (seg \<noteq> [] \<and> seg \<noteq> ''.'' \<and> seg \<noteq> ''..'' \<and> CHR ''/'' \<notin> set seg)"

text \<open>An absolute path: one that begins with the separator.\<close>

definition absolute :: "string \<Rightarrow> bool" where
  "absolute p = (p \<noteq> [] \<and> hd p = CHR ''/'')"

section \<open>The audit log under the checker\<close>

lemma log_contents_audit_record:
  "log_contents (audit_record now perm res dec det s) =
     log_contents s @
       [\<lparr>timestamp = now, permission = perm, resource = res, decision = dec, detail = det\<rparr>]"
  by (simp add: log_contents_def audit_record_def array_write_def)

lemma entries_audit_record: "entries (audit_record now perm res dec det s) = entries s"
  by (simp add: audit_record_def array_write_def)

lemma next_addr_audit_record: "next_addr (audit_record now perm res dec det s) = next_addr s"
  by (simp add: audit_record_def array_write_def)

text \<open>
  When \<open>resolve\<close> throws, the working directory is gone; on an absolute path it
  never reads it, and answers an absolute path.
\<close>

lemma resolve_Inl: "resolve pcwd x = Inl e \<Longrightarrow> pcwd = None"
  by (cases pcwd) (simp_all add: resolve_def process_cwd_def Let_def split: if_splits)

lemma resolve_present: "\<exists>y. resolve (Some c) x = Inr y"
  by (cases "resolve (Some c) x") (auto dest: resolve_Inl)

lemma resolve_of_absolute: "absolute x \<Longrightarrow> \<exists>y. resolve pcwd x = Inr y \<and> absolute y"
  by (simp add: resolve_def absolute_def)

lemma relative_Inl: "relative pcwd a b = Inl e \<Longrightarrow> pcwd = None"
  by (auto simp: relative_def split: if_splits sum.splits dest: resolve_Inl)

lemma relative_of_absolute:
  "absolute a \<Longrightarrow> absolute b \<Longrightarrow> \<exists>r. relative pcwd a b = Inr r"
  using resolve_of_absolute [of a pcwd] resolve_of_absolute [of b pcwd]
  by (auto simp: relative_def)

lemma array_some_Inl: "array_some f xs = Inl e \<Longrightarrow> \<exists>x \<in> set xs. f x = Inl e"
  by (induction xs) (auto split: sum.splits if_splits)

lemma array_some_Inr:
  "\<forall>x \<in> set xs. f x = Inr (g x) \<Longrightarrow> array_some f xs = Inr (list_ex g xs)"
  by (induction xs) auto

text \<open>The three outcomes of the filesystem check.\<close>

lemma checkFilesystem_absent:
  "Option.bind (filesystem perms) (action_paths action) = None \<Longrightarrow>
   checkFilesystem pcwd now perms action p permName s =
     (Inr False,
      audit_record now permName p Deny
        (Some (''No filesystem.'' @ action_name action @ '' permission'')) s)"
  by (simp add: checkFilesystem_def)

lemma checkFilesystem_returns:
  "fst (checkFilesystem pcwd now perms action p permName s) = Inr ok \<Longrightarrow>
   \<exists>e. log_contents (snd (checkFilesystem pcwd now perms action p permName s)) =
          log_contents s @ [e] \<and>
        decision e = decision_of ok"
  by (auto simp: checkFilesystem_def log_contents_audit_record decision_of_def
        split: option.splits sum.splits)

lemma checkFilesystem_raises:
  assumes "fst (checkFilesystem pcwd now perms action p permName s) = Inl err"
  shows "pcwd = None \<and> snd (checkFilesystem pcwd now perms action p permName s) = s \<and>
         (\<exists>paths. Option.bind (filesystem perms) (action_paths action) = Some paths \<and>
                  (\<not> absolute p \<or> (\<exists>r \<in> set paths. \<not> absolute r)))"
proof -
  obtain paths where paths: "Option.bind (filesystem perms) (action_paths action) = Some paths"
    using assms by (cases "Option.bind (filesystem perms) (action_paths action)")
      (simp_all add: checkFilesystem_def)
  show ?thesis
  proof (cases "resolve pcwd p")
    case (Inl e)
    then have "\<not> absolute p"
      using resolve_of_absolute [of p pcwd] by auto
    moreover have "snd (checkFilesystem pcwd now perms action p permName s) = s"
      using Inl paths by (simp add: checkFilesystem_def)
    ultimately show ?thesis
      using paths resolve_Inl [OF Inl] by blast
  next
    case (Inr abs_path)
    let ?test = "\<lambda>allowed.
        case resolve pcwd allowed of
          Inl e \<Rightarrow> Inl e
        | Inr allowedAbs \<Rightarrow>
            (case relative pcwd allowedAbs abs_path of
               Inl e \<Rightarrow> Inl e
             | Inr rel \<Rightarrow> Inr (\<not> startsWith rel ''..'' \<and> \<not> startsWith rel ''/''))"
    from assms paths Inr obtain e where some: "array_some ?test paths = Inl e"
      by (cases "array_some ?test paths") (simp_all add: checkFilesystem_def)
    then obtain r where r: "r \<in> set paths" "?test r = Inl e"
      using array_some_Inl by blast
    then have none: "pcwd = None"
      by (auto split: sum.splits dest: resolve_Inl relative_Inl)
    have "\<not> (absolute p \<and> absolute r)"
    proof
      assume both: "absolute p \<and> absolute r"
      then obtain y where y: "resolve pcwd r = Inr y" "absolute y"
        using resolve_of_absolute by blast
      moreover have "absolute abs_path"
        using both Inr resolve_of_absolute [of p pcwd] by auto
      ultimately obtain rel where "relative pcwd y abs_path = Inr rel"
        using relative_of_absolute by blast
      then show False using r(2) y(1) by simp
    qed
    then have "\<not> absolute p \<or> (\<exists>r \<in> set paths. \<not> absolute r)"
      using r(1) by blast
    moreover have "snd (checkFilesystem pcwd now perms action p permName s) = s"
      using paths Inr some by (simp add: checkFilesystem_def)
    ultimately show ?thesis
      using none paths by blast
  qed
qed

lemma checkFilesystem_outcome:
  "case fst (checkFilesystem pcwd now perms action p permName s) of
     Inr ok \<Rightarrow>
       (\<exists>e. log_contents (snd (checkFilesystem pcwd now perms action p permName s)) =
               log_contents s @ [e] \<and>
             decision e = (if ok then Allow else Deny))
   | Inl err \<Rightarrow>
       pcwd = None \<and> snd (checkFilesystem pcwd now perms action p permName s) = s \<and>
       (\<exists>paths. Option.bind (filesystem perms) (action_paths action) = Some paths \<and>
                (\<not> absolute p \<or> (\<exists>r \<in> set paths. \<not> absolute r)))"
proof (cases "fst (checkFilesystem pcwd now perms action p permName s)")
  case (Inl err)
  show ?thesis unfolding Inl sum.case by (rule checkFilesystem_raises [OF Inl])
next
  case (Inr ok)
  show ?thesis
    unfolding Inr sum.case using checkFilesystem_returns [OF Inr] by (simp add: decision_of_def)
qed

lemma checkFilesystem_present:
  "\<exists>ok e. fst (checkFilesystem (Some c) now perms action p permName s) = Inr ok \<and>
          log_contents (snd (checkFilesystem (Some c) now perms action p permName s)) =
            log_contents s @ [e] \<and>
          decision e = (if ok then Allow else Deny)"
proof (cases "fst (checkFilesystem (Some c) now perms action p permName s)")
  case (Inl err)
  then show ?thesis using checkFilesystem_raises [OF Inl] by simp
next
  case (Inr ok)
  then show ?thesis using checkFilesystem_returns [OF Inr] by (auto simp: decision_of_def)
qed

lemma checkNetworkClient_appends:
  "\<exists>e. log_contents (snd (checkNetworkClient now perms host s)) = log_contents s @ [e] \<and>
        decision e = decision_of (fst (checkNetworkClient now perms host s))"
  by (simp add: checkNetworkClient_def log_contents_audit_record decision_of_def Let_def
        split: option.split)

lemma checkNetworkServer_appends:
  "\<exists>e. log_contents (snd (checkNetworkServer now perms port s)) = log_contents s @ [e] \<and>
        decision e = decision_of (fst (checkNetworkServer now perms port s))"
  by (simp add: checkNetworkServer_def log_contents_audit_record decision_of_def Let_def
        split: option.split)

lemma checkEnvRead_appends:
  "\<exists>e. log_contents (snd (checkEnvRead now perms name s)) = log_contents s @ [e] \<and>
        decision e = decision_of (fst (checkEnvRead now perms name s))"
  by (simp add: checkEnvRead_def log_contents_audit_record decision_of_def Let_def
        split: option.split)

lemma checkExec_appends:
  "\<exists>e. log_contents (snd (checkExec now perms c s)) = log_contents s @ [e] \<and>
        decision e = decision_of (fst (checkExec now perms c s))"
  by (simp add: checkExec_def log_contents_audit_record decision_of_def Let_def
        split: option.split)
section \<open>The exec and network client checks\<close>

text \<open>
  Claim C2. For every command string \<open>c\<close>, \<open>checkExec\<close> returns false when
  \<open>system.allowedCommands\<close> is absent from the effective permissions (the category
  struct is absent, or the list within it is), returns true when the list is present
  and empty, and, when the list is present and not empty, returns true exactly when
  \<open>c\<close> is a member of it. Hence the absent list and the empty list are told apart:
  they give different answers at every command.
\<close>

theorem checkExec_allow_list:
  "(Option.bind (system perms) allowedCommands = None \<longrightarrow>
      fst (checkExec now perms c s) = False) \<and>
   (Option.bind (system perms) allowedCommands = Some [] \<longrightarrow>
      fst (checkExec now perms c s) = True) \<and>
   (\<forall>l. Option.bind (system perms) allowedCommands = Some l \<and> l \<noteq> [] \<longrightarrow>
      fst (checkExec now perms c s) = (c \<in> set l)) \<and>
   (\<forall>perms'. Option.bind (system perms) allowedCommands = None \<and>
      Option.bind (system perms') allowedCommands = Some [] \<longrightarrow>
      fst (checkExec now perms c s) \<noteq> fst (checkExec now perms' c s))"
  by (simp add: checkExec_def Let_def)

theorem checkExec_allow_list_witness:
  "fst (checkExec ''t'' \<lparr>filesystem = None, network = None, system = None\<rparr> ''ls'' empty_store)
     = False \<and>
   fst (checkExec ''t''
          \<lparr>filesystem = None, network = None,
           system = Some \<lparr>envVars = Some [], allowedCommands = None\<rparr>\<rparr> ''ls'' empty_store)
     = False \<and>
   fst (checkExec ''t''
          \<lparr>filesystem = None, network = None,
           system = Some \<lparr>envVars = None, allowedCommands = Some []\<rparr>\<rparr> ''ls'' empty_store)
     = True \<and>
   fst (checkExec ''t''
          \<lparr>filesystem = None, network = None,
           system = Some \<lparr>envVars = None, allowedCommands = Some [''node'', ''npx'']\<rparr>\<rparr>
          ''npx'' empty_store)
     = True \<and>
   fst (checkExec ''t''
          \<lparr>filesystem = None, network = None,
           system = Some \<lparr>envVars = None, allowedCommands = Some [''node'', ''npx'']\<rparr>\<rparr>
          ''rm'' empty_store)
     = False"
  using
    checkExec_allow_list
      [of "\<lparr>filesystem = None, network = None, system = None\<rparr>" "''t''" "''ls''" empty_store]
    checkExec_allow_list
      [of "\<lparr>filesystem = None, network = None,
            system = Some \<lparr>envVars = Some [], allowedCommands = None\<rparr>\<rparr>"
          "''t''" "''ls''" empty_store]
    checkExec_allow_list
      [of "\<lparr>filesystem = None, network = None,
            system = Some \<lparr>envVars = None, allowedCommands = Some []\<rparr>\<rparr>"
          "''t''" "''ls''" empty_store]
    checkExec_allow_list
      [of "\<lparr>filesystem = None, network = None,
            system = Some \<lparr>envVars = None, allowedCommands = Some [''node'', ''npx'']\<rparr>\<rparr>"
          "''t''" "''npx''" empty_store]
    checkExec_allow_list
      [of "\<lparr>filesystem = None, network = None,
            system = Some \<lparr>envVars = None, allowedCommands = Some [''node'', ''npx'']\<rparr>\<rparr>"
          "''t''" "''rm''" empty_store]
  by simp

text \<open>
  Claim C3. For every host name \<open>h\<close>, \<open>checkNetworkClient\<close> returns false when
  \<open>network.allowedHosts\<close> is absent from the effective permissions, returns true
  when the list contains the string \<open>*\<close>, and otherwise returns true exactly when
  the list contains \<open>h\<close> itself: membership is equality of strings, character by
  character, so neither letter case nor a pattern inside an entry is interpreted.
\<close>

theorem checkNetworkClient_hosts:
  "(Option.bind (network perms) allowedHosts = None \<longrightarrow>
      fst (checkNetworkClient now perms h s) = False) \<and>
   (\<forall>l. Option.bind (network perms) allowedHosts = Some l \<and> ''*'' \<in> set l \<longrightarrow>
      fst (checkNetworkClient now perms h s) = True) \<and>
   (\<forall>l. Option.bind (network perms) allowedHosts = Some l \<and> ''*'' \<notin> set l \<longrightarrow>
      fst (checkNetworkClient now perms h s) = (h \<in> set l))"
  by (simp add: checkNetworkClient_def Let_def)

theorem checkNetworkClient_hosts_witness:
  "fst (checkNetworkClient ''t'' \<lparr>filesystem = None, network = None, system = None\<rparr>
          ''any.host'' empty_store) = False \<and>
   fst (checkNetworkClient ''t''
          \<lparr>filesystem = None,
           network = Some \<lparr>allowedHosts = Some [''*''], listenPorts = None\<rparr>,
           system = None\<rparr> ''anything.com'' empty_store) = True \<and>
   fst (checkNetworkClient ''t''
          \<lparr>filesystem = None,
           network = Some \<lparr>allowedHosts = Some [''api.example.com''], listenPorts = None\<rparr>,
           system = None\<rparr> ''api.example.com'' empty_store) = True \<and>
   fst (checkNetworkClient ''t''
          \<lparr>filesystem = None,
           network = Some \<lparr>allowedHosts = Some [''api.example.com''], listenPorts = None\<rparr>,
           system = None\<rparr> ''API.example.com'' empty_store) = False \<and>
   fst (checkNetworkClient ''t''
          \<lparr>filesystem = None,
           network = Some \<lparr>allowedHosts = Some [''*.example.com''], listenPorts = None\<rparr>,
           system = None\<rparr> ''api.example.com'' empty_store) = False"
  using
    checkNetworkClient_hosts
      [of "\<lparr>filesystem = None, network = None, system = None\<rparr>" "''t''" "''any.host''"
          empty_store]
    checkNetworkClient_hosts
      [of "\<lparr>filesystem = None,
            network = Some \<lparr>allowedHosts = Some [''*''], listenPorts = None\<rparr>,
            system = None\<rparr>" "''t''" "''anything.com''" empty_store]
    checkNetworkClient_hosts
      [of "\<lparr>filesystem = None,
            network = Some \<lparr>allowedHosts = Some [''api.example.com''], listenPorts = None\<rparr>,
            system = None\<rparr>" "''t''" "''api.example.com''" empty_store]
    checkNetworkClient_hosts
      [of "\<lparr>filesystem = None,
            network = Some \<lparr>allowedHosts = Some [''api.example.com''], listenPorts = None\<rparr>,
            system = None\<rparr>" "''t''" "''API.example.com''" empty_store]
    checkNetworkClient_hosts
      [of "\<lparr>filesystem = None,
            network = Some \<lparr>allowedHosts = Some [''*.example.com''], listenPorts = None\<rparr>,
            system = None\<rparr>" "''t''" "''api.example.com''" empty_store]
  by simp

section \<open>Every check records its decision\<close>

lemma checkFileRead_present:
  "\<exists>ok e. fst (checkFileRead (Some c) now perms p s) = Inr ok \<and>
          log_contents (snd (checkFileRead (Some c) now perms p s)) = log_contents s @ [e] \<and>
          decision e = (if ok then Allow else Deny)"
  unfolding checkFileRead_def by (rule checkFilesystem_present)

lemma checkFileWrite_present:
  "\<exists>ok e. fst (checkFileWrite (Some c) now perms p s) = Inr ok \<and>
          log_contents (snd (checkFileWrite (Some c) now perms p s)) = log_contents s @ [e] \<and>
          decision e = (if ok then Allow else Deny)"
  unfolding checkFileWrite_def by (rule checkFilesystem_present)

lemma checkFileDelete_present:
  "\<exists>ok e. fst (checkFileDelete (Some c) now perms p s) = Inr ok \<and>
          log_contents (snd (checkFileDelete (Some c) now perms p s)) = log_contents s @ [e] \<and>
          decision e = (if ok then Allow else Deny)"
  unfolding checkFileDelete_def by (rule checkFilesystem_present)

text \<open>
  Claim C5, at the input where the code departs from it. The working directory of
  the process has been removed, the read list is present and the requested path is
  relative: \<open>resolve\<close> must read the working directory, \<open>process.cwd()\<close> throws, and
  the check leaves with that error and no boolean, before it records anything.
\<close>

theorem check_raises_when_cwd_gone:
  "fst (checkFileRead None ''t''
          \<lparr>filesystem = Some \<lparr>fs_read = Some [''/data''], fs_write = None, fs_delete = None\<rparr>,
           network = None, system = None\<rparr> ''notes.txt'' (new_AuditLog empty_store)) =
     Inl (Error ''ENOENT: no such file or directory, uv_cwd'') \<and>
   log_contents
     (snd (checkFileRead None ''t''
             \<lparr>filesystem = Some \<lparr>fs_read = Some [''/data''], fs_write = None, fs_delete = None\<rparr>,
              network = None, system = None\<rparr> ''notes.txt'' (new_AuditLog empty_store))) = []"
  by code_simp

text \<open>
  Claim C5, amended. The four checks that read no path (network client, network
  server, env-read, exec) return a boolean at every input and leave the log holding
  what it held before followed by exactly one new entry, whose decision is \<open>Allow\<close>
  when the boolean is true and \<open>Deny\<close> when it is false. The three filesystem
  checks do the same whenever the working directory of the process exists. In any
  case a filesystem check either returns a boolean and appends that one entry, or
  raises, and it raises only when the working directory is gone, its action list is
  present and the requested path or one of the allowed roots is not absolute; it
  then leaves the state, and so the log, as it was.
\<close>

theorem check_appends_one_unless_cwd_gone:
  "(\<exists>ok e. fst (checkFileRead (Some c) now perms p s) = Inr ok \<and>
        log_contents (snd (checkFileRead (Some c) now perms p s)) = log_contents s @ [e] \<and>
        decision e = (if ok then Allow else Deny)) \<and>
   (\<exists>ok e. fst (checkFileWrite (Some c) now perms p s) = Inr ok \<and>
        log_contents (snd (checkFileWrite (Some c) now perms p s)) = log_contents s @ [e] \<and>
        decision e = (if ok then Allow else Deny)) \<and>
   (\<exists>ok e. fst (checkFileDelete (Some c) now perms p s) = Inr ok \<and>
        log_contents (snd (checkFileDelete (Some c) now perms p s)) = log_contents s @ [e] \<and>
        decision e = (if ok then Allow else Deny)) \<and>
   (case fst (checkFileRead pcwd now perms p s) of
      Inr ok \<Rightarrow>
        (\<exists>e. log_contents (snd (checkFileRead pcwd now perms p s)) = log_contents s @ [e] \<and>
              decision e = (if ok then Allow else Deny))
    | Inl err \<Rightarrow>
        pcwd = None \<and> snd (checkFileRead pcwd now perms p s) = s \<and>
        (\<exists>paths. Option.bind (filesystem perms) fs_read = Some paths \<and>
                 (\<not> absolute p \<or> (\<exists>r \<in> set paths. \<not> absolute r)))) \<and>
   (case fst (checkFileWrite pcwd now perms p s) of
      Inr ok \<Rightarrow>
        (\<exists>e. log_contents (snd (checkFileWrite pcwd now perms p s)) = log_contents s @ [e] \<and>
              decision e = (if ok then Allow else Deny))
    | Inl err \<Rightarrow>
        pcwd = None \<and> snd (checkFileWrite pcwd now perms p s) = s \<and>
        (\<exists>paths. Option.bind (filesystem perms) fs_write = Some paths \<and>
                 (\<not> absolute p \<or> (\<exists>r \<in> set paths. \<not> absolute r)))) \<and>
   (case fst (checkFileDelete pcwd now perms p s) of
      Inr ok \<Rightarrow>
        (\<exists>e. log_contents (snd (checkFileDelete pcwd now perms p s)) = log_contents s @ [e] \<and>
              decision e = (if ok then Allow else Deny))
    | Inl err \<Rightarrow>
        pcwd = None \<and> snd (checkFileDelete pcwd now perms p s) = s \<and>
        (\<exists>paths. Option.bind (filesystem perms) fs_delete = Some paths \<and>
                 (\<not> absolute p \<or> (\<exists>r \<in> set paths. \<not> absolute r)))) \<and>
   (\<exists>e. log_contents (snd (checkNetworkClient now perms h s)) = log_contents s @ [e] \<and>
        decision e = (if fst (checkNetworkClient now perms h s) then Allow else Deny)) \<and>
   (\<exists>e. log_contents (snd (checkNetworkServer now perms port s)) = log_contents s @ [e] \<and>
        decision e = (if fst (checkNetworkServer now perms port s) then Allow else Deny)) \<and>
   (\<exists>e. log_contents (snd (checkEnvRead now perms v s)) = log_contents s @ [e] \<and>
        decision e = (if fst (checkEnvRead now perms v s) then Allow else Deny)) \<and>
   (\<exists>e. log_contents (snd (checkExec now perms cmd s)) = log_contents s @ [e] \<and>
        decision e = (if fst (checkExec now perms cmd s) then Allow else Deny))"
proof -
  note file_present =
    checkFileRead_present [of c now perms p s] checkFileWrite_present [of c now perms p s]
    checkFileDelete_present [of c now perms p s]
  have on_read: "case fst (checkFileRead pcwd now perms p s) of
      Inr ok \<Rightarrow>
        (\<exists>e. log_contents (snd (checkFileRead pcwd now perms p s)) = log_contents s @ [e] \<and>
              decision e = (if ok then Allow else Deny))
    | Inl err \<Rightarrow>
        pcwd = None \<and> snd (checkFileRead pcwd now perms p s) = s \<and>
        (\<exists>paths. Option.bind (filesystem perms) fs_read = Some paths \<and>
                 (\<not> absolute p \<or> (\<exists>r \<in> set paths. \<not> absolute r)))"
    using checkFilesystem_outcome [of pcwd now perms Read p "''mcp.ac.filesystem.read''" s]
    by (simp only: checkFileRead_def action_paths.simps)
  have on_write: "case fst (checkFileWrite pcwd now perms p s) of
      Inr ok \<Rightarrow>
        (\<exists>e. log_contents (snd (checkFileWrite pcwd now perms p s)) = log_contents s @ [e] \<and>
              decision e = (if ok then Allow else Deny))
    | Inl err \<Rightarrow>
        pcwd = None \<and> snd (checkFileWrite pcwd now perms p s) = s \<and>
        (\<exists>paths. Option.bind (filesystem perms) fs_write = Some paths \<and>
                 (\<not> absolute p \<or> (\<exists>r \<in> set paths. \<not> absolute r)))"
    using checkFilesystem_outcome [of pcwd now perms Write p "''mcp.ac.filesystem.write''" s]
    by (simp only: checkFileWrite_def action_paths.simps)
  have on_delete: "case fst (checkFileDelete pcwd now perms p s) of
      Inr ok \<Rightarrow>
        (\<exists>e. log_contents (snd (checkFileDelete pcwd now perms p s)) = log_contents s @ [e] \<and>
              decision e = (if ok then Allow else Deny))
    | Inl err \<Rightarrow>
        pcwd = None \<and> snd (checkFileDelete pcwd now perms p s) = s \<and>
        (\<exists>paths. Option.bind (filesystem perms) fs_delete = Some paths \<and>
                 (\<not> absolute p \<or> (\<exists>r \<in> set paths. \<not> absolute r)))"
    using checkFilesystem_outcome [of pcwd now perms Delete p "''mcp.ac.filesystem.delete''" s]
    by (simp only: checkFileDelete_def action_paths.simps)
  note others =
    checkNetworkClient_appends [of now perms h s, unfolded decision_of_def]
    checkNetworkServer_appends [of now perms port s, unfolded decision_of_def]
    checkEnvRead_appends [of now perms v s, unfolded decision_of_def]
    checkExec_appends [of now perms cmd s, unfolded decision_of_def]
  show ?thesis
    by (intro conjI file_present on_read on_write on_delete others)
qed

theorem check_appends_one_unless_cwd_gone_witness:
  "fst (checkFileRead (Some ''/home/u'') ''t''
          \<lparr>filesystem = Some \<lparr>fs_read = Some [''/data''], fs_write = None, fs_delete = None\<rparr>,
           network = None, system = None\<rparr> ''notes.txt'' (new_AuditLog empty_store)) =
     Inr False \<and>
   log_contents
     (snd (checkFileRead (Some ''/home/u'') ''t''
             \<lparr>filesystem = Some \<lparr>fs_read = Some [''/data''], fs_write = None, fs_delete = None\<rparr>,
              network = None, system = None\<rparr> ''notes.txt'' (new_AuditLog empty_store))) =
     [\<lparr>timestamp = ''t'', permission = ''mcp.ac.filesystem.read'', resource = ''notes.txt'',
       decision = Deny, detail = None\<rparr>] \<and>
   fst (checkFileRead None ''t''
          \<lparr>filesystem = Some \<lparr>fs_read = Some [''/data''], fs_write = None, fs_delete = None\<rparr>,
           network = None, system = None\<rparr> ''/data/notes.txt'' (new_AuditLog empty_store)) =
     Inr True \<and>
   log_contents
     (snd (checkFileRead None ''t''
             \<lparr>filesystem = Some \<lparr>fs_read = Some [''/data''], fs_write = None, fs_delete = None\<rparr>,
              network = None, system = None\<rparr> ''/data/notes.txt'' (new_AuditLog empty_store))) =
     [\<lparr>timestamp = ''t'', permission = ''mcp.ac.filesystem.read'',
       resource = ''/data/notes.txt'', decision = Allow, detail = None\<rparr>] \<and>
   fst (checkFileRead None ''t''
          \<lparr>filesystem = Some \<lparr>fs_read = Some [''/data''], fs_write = None, fs_delete = None\<rparr>,
           network = None, system = None\<rparr> ''notes.txt'' (new_AuditLog empty_store)) =
     Inl (Error ''ENOENT: no such file or directory, uv_cwd'') \<and>
   \<not> absolute ''notes.txt''"
proof -
  have evaluated:
    "fst (checkFileRead (Some ''/home/u'') ''t''
          \<lparr>filesystem = Some \<lparr>fs_read = Some [''/data''], fs_write = None, fs_delete = None\<rparr>,
           network = None, system = None\<rparr> ''notes.txt'' (new_AuditLog empty_store)) =
     Inr False \<and>
   log_contents
     (snd (checkFileRead (Some ''/home/u'') ''t''
             \<lparr>filesystem = Some \<lparr>fs_read = Some [''/data''], fs_write = None, fs_delete = None\<rparr>,
              network = None, system = None\<rparr> ''notes.txt'' (new_AuditLog empty_store))) =
     [\<lparr>timestamp = ''t'', permission = ''mcp.ac.filesystem.read'', resource = ''notes.txt'',
       decision = Deny, detail = None\<rparr>] \<and>
   fst (checkFileRead None ''t''
          \<lparr>filesystem = Some \<lparr>fs_read = Some [''/data''], fs_write = None, fs_delete = None\<rparr>,
           network = None, system = None\<rparr> ''/data/notes.txt'' (new_AuditLog empty_store)) =
     Inr True \<and>
   log_contents
     (snd (checkFileRead None ''t''
             \<lparr>filesystem = Some \<lparr>fs_read = Some [''/data''], fs_write = None, fs_delete = None\<rparr>,
              network = None, system = None\<rparr> ''/data/notes.txt'' (new_AuditLog empty_store))) =
     [\<lparr>timestamp = ''t'', permission = ''mcp.ac.filesystem.read'',
       resource = ''/data/notes.txt'', decision = Allow, detail = None\<rparr>] \<and>
   fst (checkFileRead None ''t''
          \<lparr>filesystem = Some \<lparr>fs_read = Some [''/data''], fs_write = None, fs_delete = None\<rparr>,
           network = None, system = None\<rparr> ''notes.txt'' (new_AuditLog empty_store)) =
     Inl (Error ''ENOENT: no such file or directory, uv_cwd'') \<and>
   \<not> absolute ''notes.txt''"
    by code_simp
  show ?thesis
    using evaluated
      check_appends_one_unless_cwd_gone
        [where c = "''/home/u''" and now = "''t''" and p = "''notes.txt''" and pcwd = None
           and s = "new_AuditLog empty_store"
           and perms = "\<lparr>filesystem =
                            Some \<lparr>fs_read = Some [''/data''], fs_write = None, fs_delete = None\<rparr>,
                          network = None, system = None\<rparr>"]
      check_appends_one_unless_cwd_gone
        [where c = "''/home/u''" and now = "''t''" and p = "''/data/notes.txt''" and pcwd = None
           and s = "new_AuditLog empty_store"
           and perms = "\<lparr>filesystem =
                            Some \<lparr>fs_read = Some [''/data''], fs_write = None, fs_delete = None\<rparr>,
                          network = None, system = None\<rparr>"]
    by blast
qed

section \<open>The audit log's views\<close>

text \<open>
  The one invariant of the store that the log needs: the array its field refers to
  has been allocated. The constructor establishes it and every method keeps it, so it
  holds at every point of a log's history.
\<close>

lemma allocated_new_AuditLog: "entries (new_AuditLog s) < next_addr (new_AuditLog s)"
  by (simp add: new_AuditLog_def new_array_def)

lemma allocated_audit_record:
  "entries s < next_addr s \<Longrightarrow>
   entries (audit_record now perm res dec det s) < next_addr (audit_record now perm res dec det s)"
  by (simp add: audit_record_def array_write_def)

lemma allocated_audit_clear: "entries (audit_clear s) < next_addr (audit_clear s)"
  by (simp add: audit_clear_def new_array_def)

lemma allocated_audit_all:
  "entries s < next_addr s \<Longrightarrow> entries (snd (audit_all s)) < next_addr (snd (audit_all s))"
  by (simp add: audit_all_def new_array_def)

lemma allocated_audit_denied:
  "entries s < next_addr s \<Longrightarrow>
   entries (snd (audit_denied s)) < next_addr (snd (audit_denied s))"
  by (simp add: audit_denied_def new_array_def)

lemma log_contents_audit_clear: "log_contents (audit_clear s) = []"
  by (simp add: audit_clear_def new_array_def log_contents_def)

lemma length_filter_decision:
  "length (filter (\<lambda>e. decision e = Deny) ys) + length (filter (\<lambda>e. decision e = Allow) ys) =
     length ys"
proof (induction ys)
  case Nil
  show ?case by simp
next
  case (Cons y ys)
  then show ?case by (cases "decision y") simp_all
qed

text \<open>
  Claim C7. In every state of a log's history, take \<open>all()\<close> and then \<open>denied()\<close>,
  giving the arrays \<open>a\<close> and \<open>d\<close>. Then \<open>a\<close> holds the log's entries and \<open>d\<close> holds
  exactly the entries of \<open>a\<close> whose decision is \<open>Deny\<close>, in the same order, a
  subsequence of \<open>a\<close>; the length of \<open>d\<close> plus the number of \<open>Allow\<close> entries is the
  length of \<open>a\<close>. Both are copies and not views of the log: they are arrays other than
  the log's own and other than each other, a later \<open>record\<close> or \<open>clear\<close> leaves them
  as they were, and a write to either leaves the log as it was. After \<open>clear()\<close>,
  \<open>all()\<close> and \<open>denied()\<close> are empty, and a \<open>record\<close> or any check that follows
  leaves the log holding exactly its one entry, with the decision of the check (the
  filesystem checks in a process whose working directory \<open>c\<close> exists).
\<close>

theorem audit_log_views:
  "entries s < next_addr s \<Longrightarrow>
   (case audit_all s of (a, s1) \<Rightarrow>
      case audit_denied s1 of (d, s2) \<Rightarrow>
        arrays s2 a = log_contents s \<and>
        arrays s2 d = filter (\<lambda>e. decision e = Deny) (arrays s2 a) \<and>
        subseq (arrays s2 d) (arrays s2 a) \<and>
        length (arrays s2 d) + length (filter (\<lambda>e. decision e = Allow) (arrays s2 a)) =
          length (arrays s2 a) \<and>
        log_contents s2 = log_contents s \<and>
        a \<noteq> entries s2 \<and> d \<noteq> entries s2 \<and> a \<noteq> d \<and>
        arrays (audit_record now perm res dec det s2) a = arrays s2 a \<and>
        arrays (audit_record now perm res dec det s2) d = arrays s2 d \<and>
        arrays (audit_clear s2) a = arrays s2 a \<and>
        arrays (audit_clear s2) d = arrays s2 d \<and>
        log_contents (array_write a xs s2) = log_contents s2 \<and>
        log_contents (array_write d xs s2) = log_contents s2) \<and>
   (case audit_all (audit_clear s) of (a, s1) \<Rightarrow> arrays s1 a = []) \<and>
   (case audit_denied (audit_clear s) of (d, s1) \<Rightarrow> arrays s1 d = []) \<and>
   log_contents (audit_record now perm res dec det (audit_clear s)) =
     [\<lparr>timestamp = now, permission = perm, resource = res, decision = dec, detail = det\<rparr>] \<and>
   (\<exists>ok e. fst (checkFileRead (Some c) now perms p (audit_clear s)) = Inr ok \<and>
        log_contents (snd (checkFileRead (Some c) now perms p (audit_clear s))) = [e] \<and>
        decision e = (if ok then Allow else Deny)) \<and>
   (\<exists>ok e. fst (checkFileWrite (Some c) now perms p (audit_clear s)) = Inr ok \<and>
        log_contents (snd (checkFileWrite (Some c) now perms p (audit_clear s))) = [e] \<and>
        decision e = (if ok then Allow else Deny)) \<and>
   (\<exists>ok e. fst (checkFileDelete (Some c) now perms p (audit_clear s)) = Inr ok \<and>
        log_contents (snd (checkFileDelete (Some c) now perms p (audit_clear s))) = [e] \<and>
        decision e = (if ok then Allow else Deny)) \<and>
   (\<exists>e. log_contents (snd (checkNetworkClient now perms h (audit_clear s))) = [e] \<and>
        decision e = (if fst (checkNetworkClient now perms h (audit_clear s)) then Allow else Deny)) \<and>
   (\<exists>e. log_contents (snd (checkNetworkServer now perms port (audit_clear s))) = [e] \<and>
        decision e = (if fst (checkNetworkServer now perms port (audit_clear s)) then Allow else Deny)) \<and>
   (\<exists>e. log_contents (snd (checkEnvRead now perms v (audit_clear s))) = [e] \<and>
        decision e = (if fst (checkEnvRead now perms v (audit_clear s)) then Allow else Deny)) \<and>
   (\<exists>e. log_contents (snd (checkExec now perms cmd (audit_clear s))) = [e] \<and>
        decision e = (if fst (checkExec now perms cmd (audit_clear s)) then Allow else Deny))"
proof -
  assume allocated: "entries s < next_addr s"
  have views: "case audit_all s of (a, s1) \<Rightarrow>
      case audit_denied s1 of (d, s2) \<Rightarrow>
        arrays s2 a = log_contents s \<and>
        arrays s2 d = filter (\<lambda>e. decision e = Deny) (arrays s2 a) \<and>
        subseq (arrays s2 d) (arrays s2 a) \<and>
        length (arrays s2 d) + length (filter (\<lambda>e. decision e = Allow) (arrays s2 a)) =
          length (arrays s2 a) \<and>
        log_contents s2 = log_contents s \<and>
        a \<noteq> entries s2 \<and> d \<noteq> entries s2 \<and> a \<noteq> d \<and>
        arrays (audit_record now perm res dec det s2) a = arrays s2 a \<and>
        arrays (audit_record now perm res dec det s2) d = arrays s2 d \<and>
        arrays (audit_clear s2) a = arrays s2 a \<and>
        arrays (audit_clear s2) d = arrays s2 d \<and>
        log_contents (array_write a xs s2) = log_contents s2 \<and>
        log_contents (array_write d xs s2) = log_contents s2"
    using allocated
    by (simp add: audit_all_def audit_denied_def new_array_def log_contents_def audit_record_def
          array_write_def audit_clear_def length_filter_decision)
  have cleared_all: "case audit_all (audit_clear s) of (a, s1) \<Rightarrow> arrays s1 a = []"
    by (simp add: audit_all_def audit_clear_def new_array_def)
  have cleared_denied: "case audit_denied (audit_clear s) of (d, s1) \<Rightarrow> arrays s1 d = []"
    by (simp add: audit_denied_def audit_clear_def new_array_def)
  have recorded: "log_contents (audit_record now perm res dec det (audit_clear s)) =
     [\<lparr>timestamp = now, permission = perm, resource = res, decision = dec, detail = det\<rparr>]"
    by (simp add: log_contents_audit_record log_contents_audit_clear)
  have c1: "\<exists>ok e. fst (checkFileRead (Some c) now perms p (audit_clear s)) = Inr ok \<and>
        log_contents (snd (checkFileRead (Some c) now perms p (audit_clear s))) = [e] \<and>
        decision e = (if ok then Allow else Deny)"
    using checkFileRead_present [of c now perms p "audit_clear s"]
    by (simp add: log_contents_audit_clear)
  have c2: "\<exists>ok e. fst (checkFileWrite (Some c) now perms p (audit_clear s)) = Inr ok \<and>
        log_contents (snd (checkFileWrite (Some c) now perms p (audit_clear s))) = [e] \<and>
        decision e = (if ok then Allow else Deny)"
    using checkFileWrite_present [of c now perms p "audit_clear s"]
    by (simp add: log_contents_audit_clear)
  have c3: "\<exists>ok e. fst (checkFileDelete (Some c) now perms p (audit_clear s)) = Inr ok \<and>
        log_contents (snd (checkFileDelete (Some c) now perms p (audit_clear s))) = [e] \<and>
        decision e = (if ok then Allow else Deny)"
    using checkFileDelete_present [of c now perms p "audit_clear s"]
    by (simp add: log_contents_audit_clear)
  have c4: "\<exists>e. log_contents (snd (checkNetworkClient now perms h (audit_clear s))) = [e] \<and>
        decision e = (if fst (checkNetworkClient now perms h (audit_clear s)) then Allow else Deny)"
    using checkNetworkClient_appends [of now perms h "audit_clear s"]
    by (simp add: log_contents_audit_clear decision_of_def)
  have c5: "\<exists>e. log_contents (snd (checkNetworkServer now perms port (audit_clear s))) = [e] \<and>
        decision e = (if fst (checkNetworkServer now perms port (audit_clear s)) then Allow else Deny)"
    using checkNetworkServer_appends [of now perms port "audit_clear s"]
    by (simp add: log_contents_audit_clear decision_of_def)
  have c6: "\<exists>e. log_contents (snd (checkEnvRead now perms v (audit_clear s))) = [e] \<and>
        decision e = (if fst (checkEnvRead now perms v (audit_clear s)) then Allow else Deny)"
    using checkEnvRead_appends [of now perms v "audit_clear s"]
    by (simp add: log_contents_audit_clear decision_of_def)
  have c7: "\<exists>e. log_contents (snd (checkExec now perms cmd (audit_clear s))) = [e] \<and>
        decision e = (if fst (checkExec now perms cmd (audit_clear s)) then Allow else Deny)"
    using checkExec_appends [of now perms cmd "audit_clear s"]
    by (simp add: log_contents_audit_clear decision_of_def)
  show ?thesis
    by (rule conjI [OF views conjI [OF cleared_all conjI [OF cleared_denied conjI [OF recorded
          conjI [OF c1 conjI [OF c2 conjI [OF c3 conjI [OF c4 conjI [OF c5 conjI [OF c6 c7]]]]]]]]]])
qed

theorem audit_log_views_witness:
  "entries (audit_record ''t2'' ''mcp.ac.network.client'' ''evil.com'' Deny None
             (audit_record ''t1'' ''mcp.ac.filesystem.read'' ''/data/file.txt'' Allow None
                (new_AuditLog empty_store)))
     < next_addr (audit_record ''t2'' ''mcp.ac.network.client'' ''evil.com'' Deny None
             (audit_record ''t1'' ''mcp.ac.filesystem.read'' ''/data/file.txt'' Allow None
                (new_AuditLog empty_store))) \<and>
   (case audit_all (audit_record ''t2'' ''mcp.ac.network.client'' ''evil.com'' Deny None
             (audit_record ''t1'' ''mcp.ac.filesystem.read'' ''/data/file.txt'' Allow None
                (new_AuditLog empty_store))) of
      (a, s1) \<Rightarrow>
        case audit_denied s1 of
          (d, s2) \<Rightarrow>
            arrays s2 a =
              [\<lparr>timestamp = ''t1'', permission = ''mcp.ac.filesystem.read'',
                resource = ''/data/file.txt'', decision = Allow, detail = None\<rparr>,
               \<lparr>timestamp = ''t2'', permission = ''mcp.ac.network.client'',
                resource = ''evil.com'', decision = Deny, detail = None\<rparr>] \<and>
            arrays s2 d =
              [\<lparr>timestamp = ''t2'', permission = ''mcp.ac.network.client'',
                resource = ''evil.com'', decision = Deny, detail = None\<rparr>] \<and>
            a = 1 \<and> d = 2 \<and> entries s2 = 0 \<and>
            arrays (audit_clear s2) a = arrays s2 a \<and>
            log_contents (audit_clear s2) = [])"
  using audit_log_views
      [of "audit_record ''t2'' ''mcp.ac.network.client'' ''evil.com'' Deny None
             (audit_record ''t1'' ''mcp.ac.filesystem.read'' ''/data/file.txt'' Allow None
                (new_AuditLog empty_store))"]
  by (simp add: audit_record_def array_write_def new_AuditLog_def new_array_def empty_store_def
        audit_all_def audit_denied_def audit_clear_def log_contents_def)


section \<open>Policy resolution\<close>

text \<open>
  Claim C4. For every manifest and every overrides, each field of the result is
  decided by its own permission. The read and the write paths of a declared
  permission are the override when one is given and the working directory alone
  otherwise. The delete paths of a declared delete permission are the override when
  one is given; with no override they are the resolved write paths when write is
  declared and the working directory alone when it is not. The hosts of a declared
  client permission default to the single entry \<open>*\<close>; the ports, the variable names
  and the commands of a declared server, env-read and exec permission default to the
  empty list. A field whose permission is not declared is absent, and a category
  struct is present exactly when one of its permissions is declared.
\<close>

theorem resolvePolicy_fields:
  "(filesystem (resolvePolicy pcwd m ov) \<noteq> None) =
     (FILESYSTEM_READ \<in> set (permissions m) \<or> FILESYSTEM_WRITE \<in> set (permissions m) \<or>
      FILESYSTEM_DELETE \<in> set (permissions m)) \<and>
   (network (resolvePolicy pcwd m ov) \<noteq> None) =
     (NETWORK_CLIENT \<in> set (permissions m) \<or> NETWORK_SERVER \<in> set (permissions m)) \<and>
   (system (resolvePolicy pcwd m ov) \<noteq> None) =
     (SYSTEM_ENV_READ \<in> set (permissions m) \<or> SYSTEM_EXEC \<in> set (permissions m)) \<and>
   Option.bind (filesystem (resolvePolicy pcwd m ov)) fs_read =
     (if FILESYSTEM_READ \<in> set (permissions m)
      then Some (case readPaths ov of Some ps \<Rightarrow> ps | None \<Rightarrow> [pcwd]) else None) \<and>
   Option.bind (filesystem (resolvePolicy pcwd m ov)) fs_write =
     (if FILESYSTEM_WRITE \<in> set (permissions m)
      then Some (case writePaths ov of Some ps \<Rightarrow> ps | None \<Rightarrow> [pcwd]) else None) \<and>
   Option.bind (filesystem (resolvePolicy pcwd m ov)) fs_delete =
     (if FILESYSTEM_DELETE \<in> set (permissions m)
      then Some (case deletePaths ov of
                   Some ps \<Rightarrow> ps
                 | None \<Rightarrow>
                     (case Option.bind (filesystem (resolvePolicy pcwd m ov)) fs_write of
                        Some ws \<Rightarrow> ws
                      | None \<Rightarrow> [pcwd]))
      else None) \<and>
   (FILESYSTEM_DELETE \<in> set (permissions m) \<and> deletePaths ov = None \<and>
    FILESYSTEM_WRITE \<in> set (permissions m) \<longrightarrow>
      Option.bind (filesystem (resolvePolicy pcwd m ov)) fs_delete =
        Option.bind (filesystem (resolvePolicy pcwd m ov)) fs_write) \<and>
   (FILESYSTEM_DELETE \<in> set (permissions m) \<and> deletePaths ov = None \<and>
    FILESYSTEM_WRITE \<notin> set (permissions m) \<longrightarrow>
      Option.bind (filesystem (resolvePolicy pcwd m ov)) fs_delete = Some [pcwd]) \<and>
   Option.bind (network (resolvePolicy pcwd m ov)) allowedHosts =
     (if NETWORK_CLIENT \<in> set (permissions m)
      then Some (case allowedHosts_ov ov of Some hs \<Rightarrow> hs | None \<Rightarrow> [''*'']) else None) \<and>
   Option.bind (network (resolvePolicy pcwd m ov)) listenPorts =
     (if NETWORK_SERVER \<in> set (permissions m)
      then Some (case listenPorts_ov ov of Some ps \<Rightarrow> ps | None \<Rightarrow> []) else None) \<and>
   Option.bind (system (resolvePolicy pcwd m ov)) envVars =
     (if SYSTEM_ENV_READ \<in> set (permissions m)
      then Some (case envVars_ov ov of Some vs \<Rightarrow> vs | None \<Rightarrow> []) else None) \<and>
   Option.bind (system (resolvePolicy pcwd m ov)) allowedCommands =
     (if SYSTEM_EXEC \<in> set (permissions m)
      then Some (case allowedCommands_ov ov of Some cs \<Rightarrow> cs | None \<Rightarrow> []) else None)"
  by (simp add: resolvePolicy_def Let_def split: option.split)

theorem resolvePolicy_fields_witness:
  "FILESYSTEM_DELETE \<in> set [FILESYSTEM_WRITE, FILESYSTEM_DELETE, NETWORK_CLIENT, SYSTEM_EXEC] \<and>
   FILESYSTEM_WRITE \<in> set [FILESYSTEM_WRITE, FILESYSTEM_DELETE, NETWORK_CLIENT, SYSTEM_EXEC] \<and>
   deletePaths (no_overrides\<lparr>writePaths := Some [''/data'']\<rparr>) = None \<and>
   resolvePolicy ''/work''
       \<lparr>description = ''FS server'',
        permissions = [FILESYSTEM_WRITE, FILESYSTEM_DELETE, NETWORK_CLIENT, SYSTEM_EXEC]\<rparr>
       (no_overrides\<lparr>writePaths := Some [''/data'']\<rparr>) =
     \<lparr>filesystem = Some \<lparr>fs_read = None, fs_write = Some [''/data''], fs_delete = Some [''/data'']\<rparr>,
      network = Some \<lparr>allowedHosts = Some [''*''], listenPorts = None\<rparr>,
      system = Some \<lparr>envVars = None, allowedCommands = Some []\<rparr>\<rparr> \<and>
   FILESYSTEM_DELETE \<in> set [FILESYSTEM_READ, FILESYSTEM_DELETE, NETWORK_SERVER, SYSTEM_ENV_READ] \<and>
   FILESYSTEM_WRITE \<notin> set [FILESYSTEM_READ, FILESYSTEM_DELETE, NETWORK_SERVER, SYSTEM_ENV_READ] \<and>
   deletePaths (no_overrides\<lparr>readPaths := Some [''/custom/path'', ''/another'']\<rparr>) = None \<and>
   resolvePolicy ''/work''
       \<lparr>description = ''FS server'',
        permissions = [FILESYSTEM_READ, FILESYSTEM_DELETE, NETWORK_SERVER, SYSTEM_ENV_READ]\<rparr>
       (no_overrides\<lparr>readPaths := Some [''/custom/path'', ''/another'']\<rparr>) =
     \<lparr>filesystem =
        Some \<lparr>fs_read = Some [''/custom/path'', ''/another''], fs_write = None,
              fs_delete = Some [''/work'']\<rparr>,
      network = Some \<lparr>allowedHosts = None, listenPorts = Some []\<rparr>,
      system = Some \<lparr>envVars = Some [], allowedCommands = None\<rparr>\<rparr>"
  using
    resolvePolicy_fields
      [of "''/work''"
          "\<lparr>description = ''FS server'',
            permissions = [FILESYSTEM_WRITE, FILESYSTEM_DELETE, NETWORK_CLIENT, SYSTEM_EXEC]\<rparr>"
          "no_overrides\<lparr>writePaths := Some [''/data'']\<rparr>"]
    resolvePolicy_fields
      [of "''/work''"
          "\<lparr>description = ''FS server'',
            permissions = [FILESYSTEM_READ, FILESYSTEM_DELETE, NETWORK_SERVER, SYSTEM_ENV_READ]\<rparr>"
          "no_overrides\<lparr>readPaths := Some [''/custom/path'', ''/another'']\<rparr>"]
  by (simp add: resolvePolicy_def no_overrides_def)

text \<open>
  Claim C9. For a manifest that declares no permission, and whatever the overrides,
  the resolved permissions have no category struct, and under them each of the seven
  checks returns false at every input, whatever the working directory at the time
  of the check, present or gone.
\<close>

theorem empty_manifest_denies_all:
  "resolvePolicy pcwd \<lparr>description = d, permissions = []\<rparr> ov =
     \<lparr>filesystem = None, network = None, system = None\<rparr> \<and>
   fst (checkFileRead pcwd' now
          (resolvePolicy pcwd \<lparr>description = d, permissions = []\<rparr> ov) p s) = Inr False \<and>
   fst (checkFileWrite pcwd' now
          (resolvePolicy pcwd \<lparr>description = d, permissions = []\<rparr> ov) p s) = Inr False \<and>
   fst (checkFileDelete pcwd' now
          (resolvePolicy pcwd \<lparr>description = d, permissions = []\<rparr> ov) p s) = Inr False \<and>
   fst (checkNetworkClient now
          (resolvePolicy pcwd \<lparr>description = d, permissions = []\<rparr> ov) h s) = False \<and>
   fst (checkNetworkServer now
          (resolvePolicy pcwd \<lparr>description = d, permissions = []\<rparr> ov) port s) = False \<and>
   fst (checkEnvRead now
          (resolvePolicy pcwd \<lparr>description = d, permissions = []\<rparr> ov) v s) = False \<and>
   fst (checkExec now
          (resolvePolicy pcwd \<lparr>description = d, permissions = []\<rparr> ov) c s) = False"
  by (simp add: resolvePolicy_def checkFileRead_def checkFileWrite_def checkFileDelete_def
        checkFilesystem_def checkNetworkClient_def checkNetworkServer_def checkEnvRead_def
        checkExec_def)

text \<open>
  Claim C10. The result of \<open>resolvePolicy\<close> depends on the permissions array of the
  manifest only through the set of its elements: two manifests whose arrays hold the
  same permissions, in whatever order and however often, resolve to the same
  effective permissions under the same overrides.
\<close>

theorem resolvePolicy_set_only:
  "set (permissions m1) = set (permissions m2) \<Longrightarrow>
   resolvePolicy pcwd m1 ov = resolvePolicy pcwd m2 ov"
  by (simp add: resolvePolicy_def)

theorem resolvePolicy_set_only_witness:
  "set (permissions \<lparr>description = ''one'',
                     permissions = [FILESYSTEM_READ, NETWORK_CLIENT, FILESYSTEM_READ]\<rparr>) =
     set (permissions \<lparr>description = ''two'', permissions = [NETWORK_CLIENT, FILESYSTEM_READ]\<rparr>) \<and>
   resolvePolicy ''/work''
       \<lparr>description = ''one'', permissions = [FILESYSTEM_READ, NETWORK_CLIENT, FILESYSTEM_READ]\<rparr>
       no_overrides =
     resolvePolicy ''/work''
       \<lparr>description = ''two'', permissions = [NETWORK_CLIENT, FILESYSTEM_READ]\<rparr> no_overrides \<and>
   resolvePolicy ''/work''
       \<lparr>description = ''two'', permissions = [NETWORK_CLIENT, FILESYSTEM_READ]\<rparr> no_overrides =
     \<lparr>filesystem = Some \<lparr>fs_read = Some [''/work''], fs_write = None, fs_delete = None\<rparr>,
      network = Some \<lparr>allowedHosts = Some [''*''], listenPorts = None\<rparr>,
      system = None\<rparr>"
proof -
  have same:
    "set (permissions \<lparr>description = ''one'',
                       permissions = [FILESYSTEM_READ, NETWORK_CLIENT, FILESYSTEM_READ]\<rparr>) =
     set (permissions \<lparr>description = ''two'', permissions = [NETWORK_CLIENT, FILESYSTEM_READ]\<rparr>)"
    by auto
  show ?thesis
    using same resolvePolicy_set_only [OF same, of "''/work''" no_overrides]
    by (simp add: resolvePolicy_def no_overrides_def)
qed

section \<open>The launcher\<close>

lemma nullish_case: "nullish x d = (case x of None \<Rightarrow> d | Some a \<Rightarrow> a)"
  by (cases x) simp_all

lemma set_fold_first_occurrences:
  "set (fold (\<lambda>x acc. if x \<in> set acc then acc else acc @ [x]) xs acc) = set xs \<union> set acc"
  by (induction xs arbitrary: acc) auto

lemma set_Set_of: "set (Set_of xs) = set xs"
  by (simp add: Set_of_def set_fold_first_occurrences)

lemma fold_copy_env:
  "fold (\<lambda>key env. case process_env penv key of None \<Rightarrow> env | Some v \<Rightarrow> assign env key v)
     xs env0 k =
     (if k \<in> set xs \<and> k \<noteq> ''__proto__'' \<and> process_env penv k \<noteq> None
      then process_env penv k else env0 k)"
  by (induction xs arbitrary: env0) (auto simp: assign_def split: option.splits)

lemma PATH_not_proto: "''PATH'' \<noteq> ''__proto__''"
  by simp

text \<open>What \<open>buildEnvironment\<close> hands to the child, name by name.\<close>

lemma buildEnvironment_lookup:
  "buildEnvironment perms penv k =
     (if Option.bind (system perms) allowedCommands = None \<and> k = ''PATH''
      then Some (Str ''/usr/local/bin:/usr/bin:/bin'')
      else if k \<in> set ALWAYS_ALLOWED \<union>
                   set (case Option.bind (system perms) envVars of None \<Rightarrow> [] | Some vs \<Rightarrow> vs) \<and>
              k \<noteq> ''__proto__''
      then process_env penv k else None)"
  using PATH_not_proto
  by (auto simp: buildEnvironment_def Let_def fold_copy_env set_Set_of nullish_case assign_def)

text \<open>
  Away from the names of \<open>Object.prototype\<close> the environment of the child is the
  launching environment restricted to the allowed names, with the search path
  replaced when exec is not granted.
\<close>

lemma proto_in_Object_prototype: "''__proto__'' \<in> set Object_prototype"
  by (simp add: Object_prototype_def)

lemma buildEnvironment_own_names:
  assumes "k \<notin> set Object_prototype"
  shows "(Option.bind (system perms) allowedCommands \<noteq> None \<or> k \<noteq> ''PATH'' \<longrightarrow>
            buildEnvironment perms penv k =
              (if k \<in> set ALWAYS_ALLOWED \<union>
                        set (case Option.bind (system perms) envVars of
                               None \<Rightarrow> [] | Some vs \<Rightarrow> vs)
               then map_option Str (penv k) else None)) \<and>
         (Option.bind (system perms) allowedCommands = None \<longrightarrow>
            buildEnvironment perms penv ''PATH'' = Some (Str ''/usr/local/bin:/usr/bin:/bin''))"
proof -
  have "k \<noteq> ''__proto__''"
    using assms proto_in_Object_prototype by blast
  moreover have "process_env penv k = map_option Str (penv k)"
    using assms by (simp add: process_env_def split: option.split)
  ultimately show ?thesis
    by (auto simp: buildEnvironment_lookup)
qed

text \<open>
  Claim C6, at the input where the code departs from it. The operator allows the
  variable name \<open>toString\<close> and the launching environment defines PATH and HOME
  only. The lookup \<open>process.env["toString"]\<close> is not \<open>undefined\<close>: it answers the
  function that every object inherits, and the code copies it into the environment
  of the child under the name \<open>toString\<close>, a variable that the launching
  environment does not define.
\<close>

theorem buildEnvironment_copies_inherited_member:
  "[''PATH'' \<mapsto> ''/opt/bin'', ''HOME'' \<mapsto> ''/home/u''] ''toString'' = None \<and>
   buildEnvironment
     \<lparr>filesystem = None, network = None,
      system = Some \<lparr>envVars = Some [''toString''], allowedCommands = Some []\<rparr>\<rparr>
     [''PATH'' \<mapsto> ''/opt/bin'', ''HOME'' \<mapsto> ''/home/u''] ''toString'' =
     Some (Inherited ''toString'')"
  by (simp add: buildEnvironment_lookup process_env_def Object_prototype_def ALWAYS_ALLOWED_def)

text \<open>
  Claim C8. For every working directory, every effective permissions and every other
  option, \<open>launchSandbox\<close> with an empty command throws its argument error and
  leaves the processes of the operating system as they were: no child is created.
  The facade \<open>createAgentBox\<close> passes the same error on, and creates no child
  either.
\<close>

theorem launch_empty_command:
  "launchSandbox pcwd penv (options\<lparr>command := []\<rparr>) procs =
     (Inl (Error ''command must contain at least one element''), procs) \<and>
   fst (createAgentBox c penv (box_options\<lparr>command_ab := []\<rparr>) s procs) =
     Inl (Error ''command must contain at least one element'') \<and>
   snd (snd (createAgentBox c penv (box_options\<lparr>command_ab := []\<rparr>) s procs)) = procs"
  by (simp add: launchSandbox_def createAgentBox_def)

text \<open>
  With a command that names a file, in a process that has a working directory, one
  child is created; with the empty file name \<open>spawn\<close> throws and none is.
\<close>

lemma launch_nonempty_command:
  "cmd \<noteq> [] \<Longrightarrow>
   launchSandbox (Some c) penv (options\<lparr>command := cmd # args, cwd := None\<rparr>) procs =
     (Inr \<lparr>process = length procs, permissions_sp = permissions_so options\<rparr>,
      procs @
        [\<lparr>child_cmd = cmd, child_args = args, child_cwd = c,
          child_env = buildEnvironment (permissions_so options) penv,
          child_stdio = nullish (stdio options) Pipe\<rparr>])"
  by (simp add: launchSandbox_def spawn_def process_cwd_def)

lemma launch_empty_file_name:
  "launchSandbox (Some c) penv (options\<lparr>command := [] # args, cwd := None\<rparr>) procs =
     (Inl (Error ''ERR_INVALID_ARG_VALUE: the argument file cannot be empty''), procs)"
  by (simp add: launchSandbox_def spawn_def process_cwd_def)

section \<open>The filesystem checks\<close>

text \<open>
  Splitting and joining are inverse on the segments of a resolved path, so that
  \<open>resolve\<close> of an absolute working directory answers a slash followed by clean
  segments, is idempotent on such a path, and \<open>relative\<close> of two such paths is
  decided by their segments.
\<close>

lemma split_on_not_Nil: "split_on c s \<noteq> []"
  by (induction s) (auto split: list.splits)

lemma split_on_no_sep: "c \<notin> set x \<Longrightarrow> split_on c x = [x]"
  by (induction x) auto

lemma split_on_append_sep:
  "c \<notin> set x \<Longrightarrow> split_on c (x @ c # rest) = x # split_on c rest"
  by (induction x) auto

lemma split_on_snoc_sep: "split_on c (s @ [c]) = split_on c s @ [[]]"
  by (induction s) (auto simp: split_on_not_Nil split: list.splits)

lemma split_on_sep_free: "seg \<in> set (split_on c s) \<Longrightarrow> c \<notin> set seg"
  by (induction s arbitrary: seg) (auto split: if_splits list.splits)

lemma split_on_join:
  "ns \<noteq> [] \<Longrightarrow> \<forall>seg \<in> set ns. CHR ''/'' \<notin> set seg \<Longrightarrow> split_on CHR ''/'' (join ns) = ns"
proof (induction ns rule: join.induct)
  case 1
  then show ?case by simp
next
  case (2 x)
  then show ?case by (simp add: split_on_no_sep)
next
  case (3 x y ys)
  then show ?case by (simp add: split_on_append_sep)
qed

lemma segments_root_join:
  assumes "\<forall>seg \<in> set ns. clean_segment seg"
  shows "segments (CHR ''/'' # join ns) = ns"
proof (cases ns)
  case Nil
  then show ?thesis by (simp add: segments_def)
next
  case (Cons a list)
  then have "split_on CHR ''/'' (join ns) = ns"
    using assms by (intro split_on_join) (auto simp: clean_segment_def)
  moreover have "filter (\<lambda>seg. seg \<noteq> []) ns = ns"
    using assms by (induction ns) (auto simp: clean_segment_def)
  ultimately show ?thesis by (simp add: segments_def)
qed

lemma normalizeString_clean:
  "\<forall>seg \<in> set res. clean_segment seg \<Longrightarrow> \<forall>seg \<in> set segs. CHR ''/'' \<notin> set seg \<Longrightarrow>
   \<forall>seg \<in> set (normalizeString False res segs). clean_segment seg"
proof (induction segs arbitrary: res)
  case Nil
  then show ?case by simp
next
  case (Cons seg rest)
  have rest: "\<forall>seg \<in> set rest. CHR ''/'' \<notin> set seg"
    using Cons.prems(2) by simp
  have butlast_clean: "\<forall>seg \<in> set (butlast res). clean_segment seg"
    using Cons.prems(1) by (meson in_set_butlastD)
  consider (skip) "seg = [] \<or> seg = ''.''" | (up) "seg = ''..''"
    | (keep) "seg \<noteq> []" "seg \<noteq> ''.''" "seg \<noteq> ''..''"
    by blast
  then show ?case
  proof cases
    case skip
    then have "normalizeString False res (seg # rest) = normalizeString False res rest"
      by auto
    then show ?thesis using Cons.IH [OF Cons.prems(1) rest] by simp
  next
    case up
    then have "normalizeString False res (seg # rest) =
        (if res \<noteq> [] \<and> last res \<noteq> ''..'' then normalizeString False (butlast res) rest
         else normalizeString False res rest)"
      by simp
    then show ?thesis
      using Cons.IH [OF Cons.prems(1) rest] Cons.IH [OF butlast_clean rest]
      by (cases "res \<noteq> [] \<and> last res \<noteq> ''..''") simp_all
  next
    case keep
    then have eq: "normalizeString False res (seg # rest) = normalizeString False (res @ [seg]) rest"
      by simp
    have "clean_segment seg"
      using keep Cons.prems(2) by (simp add: clean_segment_def)
    then have kept: "\<forall>s \<in> set (res @ [seg]). clean_segment s"
      using Cons.prems(1) by simp
    show ?thesis unfolding eq by (rule Cons.IH [OF kept rest])
  qed
qed

lemma normalizeString_of_clean:
  "\<forall>seg \<in> set ns. clean_segment seg \<Longrightarrow> normalizeString False res (ns @ [[]]) = res @ ns"
proof (induction ns arbitrary: res)
  case Nil
  then show ?case by simp
next
  case (Cons n ns)
  then have "n \<noteq> []" "n \<noteq> ''.''" "n \<noteq> ''..''"
    by (simp_all add: clean_segment_def)
  then have "normalizeString False res ((n # ns) @ [[]]) = normalizeString False (res @ [n]) (ns @ [[]])"
    by simp
  then show ?case using Cons by simp
qed

lemma resolve_clean:
  assumes "absolute x \<or> (\<exists>c. pcwd = Some c \<and> absolute c)"
  obtains ns where "resolve pcwd x = Inr (CHR ''/'' # join ns)"
    and "\<forall>seg \<in> set ns. clean_segment seg"
proof -
  have "\<exists>input. resolve pcwd x =
          Inr (CHR ''/'' # join (normalizeString False [] (split_on CHR ''/'' input)))"
  proof (cases "absolute x")
    case True
    then have "resolve pcwd x =
        Inr (CHR ''/'' # join (normalizeString False [] (split_on CHR ''/'' (x @ ''/''))))"
      by (simp add: resolve_def absolute_def)
    then show ?thesis by blast
  next
    case False
    then obtain c where "pcwd = Some c" "absolute c"
      using assms by blast
    with False have "resolve pcwd x =
        Inr (CHR ''/'' # join (normalizeString False []
               (split_on CHR ''/'' (c @ ''/'' @ (if x = [] then [] else x @ ''/'')))))"
      by (auto simp: resolve_def absolute_def process_cwd_def Let_def)
    then show ?thesis by blast
  qed
  then obtain input where res:
    "resolve pcwd x = Inr (CHR ''/'' # join (normalizeString False [] (split_on CHR ''/'' input)))"
    by blast
  have "\<forall>seg \<in> set (split_on CHR ''/'' input). CHR ''/'' \<notin> set seg"
    using split_on_sep_free by blast
  then have "\<forall>seg \<in> set (normalizeString False [] (split_on CHR ''/'' input)). clean_segment seg"
    by (intro normalizeString_clean) simp_all
  with res show ?thesis by (rule that)
qed

lemma resolve_resolved:
  assumes "\<forall>seg \<in> set ns. clean_segment seg"
  shows "resolve pcwd (CHR ''/'' # join ns) = Inr (CHR ''/'' # join ns)"
proof (cases ns)
  case Nil
  then show ?thesis by (simp add: resolve_def)
next
  case (Cons a list)
  then have "split_on CHR ''/'' (join ns) = ns"
    using assms by (intro split_on_join) (auto simp: clean_segment_def)
  then have "split_on CHR ''/'' ((CHR ''/'' # join ns) @ ''/'') = [] # (ns @ [[]])"
    using split_on_snoc_sep [of "CHR ''/''" "join ns"] by simp
  moreover have "normalizeString False [] ([] # (ns @ [[]])) = ns"
    using normalizeString_of_clean [OF assms, of "[]"] by simp
  ultimately show ?thesis
    by (simp add: resolve_def)
qed

lemma drop_common_same: "drop_common xs xs = ([], [])"
  by (induction xs) auto

lemma drop_common_prefix:
  "drop_common xs ys = (up, down) \<Longrightarrow>
   (up = []) = prefix xs ys \<and> (up = [] \<longrightarrow> down = drop (length xs) ys)"
  by (induction xs ys rule: drop_common.induct) (auto split: if_splits)

lemma relative_resolved:
  assumes "\<forall>seg \<in> set A. clean_segment seg" "\<forall>seg \<in> set B. clean_segment seg"
  shows "relative pcwd (CHR ''/'' # join A) (CHR ''/'' # join B) =
           Inr (case drop_common A B of
                  (up, down) \<Rightarrow> join (replicate (length up) ''..'' @ down))"
proof (cases "A = B")
  case True
  then show ?thesis by (simp add: relative_def drop_common_same)
next
  case False
  then have "CHR ''/'' # join A \<noteq> CHR ''/'' # join B"
    using segments_root_join [OF assms(1)] segments_root_join [OF assms(2)] by metis
  then show ?thesis
    by (simp add: relative_def resolve_resolved [OF assms(1)] resolve_resolved [OF assms(2)]
          segments_root_join [OF assms(1)] segments_root_join [OF assms(2)])
qed

lemma startsWith_join_up:
  "0 < n \<Longrightarrow> startsWith (join (replicate n ''..'' @ down)) ''..''"
proof -
  assume "0 < n"
  then obtain k where n: "n = Suc k" by (cases n) auto
  show ?thesis
    unfolding n by (cases "replicate k ''..'' @ down") (simp_all add: startsWith_def)
qed

lemma startsWith_slash: "startsWith x ''/'' \<Longrightarrow> x \<noteq> [] \<and> hd x = CHR ''/''"
  by (cases x) (simp_all add: startsWith_def)

lemma hd_join: "d \<noteq> [] \<Longrightarrow> join (d # ds) \<noteq> [] \<and> hd (join (d # ds)) = hd d"
  by (cases ds) simp_all

lemma startsWith_join_clean:
  assumes "\<forall>seg \<in> set down. clean_segment seg"
  shows "\<not> startsWith (join down) ''/''"
proof (cases down)
  case Nil
  then show ?thesis by (simp add: startsWith_def)
next
  case (Cons d ds)
  then have "d \<noteq> []" "CHR ''/'' \<notin> set d"
    using assms by (simp_all add: clean_segment_def)
  then have "hd d \<noteq> CHR ''/''"
    by (cases d) auto
  then show ?thesis
    using hd_join [OF \<open>d \<noteq> []\<close>, of ds] startsWith_slash [of "join down"] Cons by auto
qed

lemma startsWith_join_dotdot:
  assumes "\<forall>seg \<in> set down. clean_segment seg"
  shows "startsWith (join down) ''..'' = (down \<noteq> [] \<and> startsWith (hd down) ''..'')"
proof (cases down)
  case Nil
  then show ?thesis by (simp add: startsWith_def)
next
  case (Cons d ds)
  then have d: "d \<noteq> []" "CHR ''/'' \<notin> set d"
    using assms by (simp_all add: clean_segment_def)
  then obtain c cs where dc: "d = c # cs" by (cases d) auto
  show ?thesis
  proof (cases cs)
    case Nil
    then show ?thesis
      using Cons dc by (cases ds) (simp_all add: startsWith_def)
  next
    case (Cons c' cs')
    then show ?thesis
      using \<open>down = d # ds\<close> dc by (cases ds) (simp_all add: startsWith_def)
  qed
qed

lemma allowed_root_test:
  assumes "absolute c" "resolve (Some c) p = Inr abs_path"
  shows "(case resolve (Some c) allowed of
            Inl e \<Rightarrow> Inl e
          | Inr allowedAbs \<Rightarrow>
              (case relative (Some c) allowedAbs abs_path of
                 Inl e \<Rightarrow> Inl e
               | Inr rel \<Rightarrow> Inr (\<not> startsWith rel ''..'' \<and> \<not> startsWith rel ''/''))) =
         Inr (spec_contains (Some c) allowed p \<and>
              \<not> startsWith
                   (join (drop (length (segments (projr (resolve (Some c) allowed))))
                            (segments abs_path)))
                   ''..'')"
proof -
  obtain A where A: "resolve (Some c) allowed = Inr (CHR ''/'' # join A)"
      "\<forall>seg \<in> set A. clean_segment seg"
    using resolve_clean [of allowed "Some c"] assms(1) by blast
  obtain B where B: "resolve (Some c) p = Inr (CHR ''/'' # join B)"
      "\<forall>seg \<in> set B. clean_segment seg"
    using resolve_clean [of p "Some c"] assms(1) by blast
  have abs_path: "abs_path = CHR ''/'' # join B"
    using assms(2) B(1) by simp
  have segA: "segments (CHR ''/'' # join A) = A" and segB: "segments (CHR ''/'' # join B) = B"
    using segments_root_join A(2) B(2) by blast+
  obtain up down where ud: "drop_common A B = (up, down)"
    by (cases "drop_common A B") auto
  have rel: "relative (Some c) (CHR ''/'' # join A) (CHR ''/'' # join B) =
               Inr (join (replicate (length up) ''..'' @ down))"
    using relative_resolved [OF A(2) B(2), of "Some c"] ud by simp
  have contains: "spec_contains (Some c) allowed p = prefix A B"
    by (simp add: spec_contains_def A(1) B(1) segA segB)
  show ?thesis
  proof (cases "up = []")
    case True
    then have pre: "prefix A B" and down: "down = drop (length A) B"
      using drop_common_prefix [OF ud] by simp_all
    have "\<forall>seg \<in> set down. clean_segment seg"
      using B(2) down by (meson in_set_dropD)
    then have "\<not> startsWith (join down) ''/''"
      by (rule startsWith_join_clean)
    then show ?thesis
      using True pre down by (simp add: A(1) abs_path rel contains segA segB)
  next
    case False
    then have "\<not> prefix A B"
      using drop_common_prefix [OF ud] by simp
    moreover have "startsWith (join (replicate (length up) ''..'' @ down)) ''..''"
      using False by (intro startsWith_join_up) simp
    ultimately show ?thesis
      by (simp add: A(1) abs_path rel contains)
  qed
qed

text \<open>
  What the filesystem check computes in a process whose working directory exists
  and is absolute, as \<open>process.cwd()\<close> answers it: a root allows the path exactly
  when it contains it and the part of the path below the root does not begin with
  two dots.
\<close>

lemma checkFilesystem_absolute_cwd:
  assumes "absolute c"
    and "Option.bind (filesystem perms) (action_paths action) = Some paths"
  shows "fst (checkFilesystem (Some c) now perms action p permName s) =
           Inr (list_ex (\<lambda>allowed.
                  spec_contains (Some c) allowed p \<and>
                  \<not> startsWith
                       (join (drop (length (segments (projr (resolve (Some c) allowed))))
                                (segments (projr (resolve (Some c) p)))))
                       ''..'') paths)"
proof -
  obtain abs_path where abs_path: "resolve (Some c) p = Inr abs_path"
    using resolve_present by blast
  show ?thesis
    using assms(2) abs_path
      array_some_Inr [of paths _ _, OF ballI, OF allowed_root_test [OF assms(1) abs_path]]
    by (simp add: checkFilesystem_def)
qed

text \<open>No check allows a path that no allowed root contains.\<close>

lemma checkFilesystem_sound:
  assumes "absolute c"
    and "Option.bind (filesystem perms) (action_paths action) = Some paths"
    and "fst (checkFilesystem (Some c) now perms action p permName s) = Inr True"
  shows "\<exists>allowed \<in> set paths. spec_contains (Some c) allowed p"
  using assms(3) unfolding checkFilesystem_absolute_cwd [OF assms(1,2)] list_ex_iff
  by auto

text \<open>
  On a path none of whose canonical segments begins with two dots, the check is
  containment in some allowed root.
\<close>

lemma checkFilesystem_complete:
  assumes "absolute c"
    and "Option.bind (filesystem perms) (action_paths action) = Some paths"
    and "\<forall>seg \<in> set (segments (projr (resolve (Some c) p))). \<not> startsWith seg ''..''"
  shows "fst (checkFilesystem (Some c) now perms action p permName s) =
           Inr (\<exists>allowed \<in> set paths. spec_contains (Some c) allowed p)"
proof -
  obtain B where B: "resolve (Some c) p = Inr (CHR ''/'' # join B)"
      "\<forall>seg \<in> set B. clean_segment seg"
    using resolve_clean [of p "Some c"] assms(1) by blast
  have segB: "segments (projr (resolve (Some c) p)) = B"
    using segments_root_join [OF B(2)] B(1) by simp
  have "\<not> startsWith (join (drop n B)) ''..''" for n
  proof -
    have clean: "\<forall>seg \<in> set (drop n B). clean_segment seg"
      using B(2) by (meson in_set_dropD)
    have "drop n B \<noteq> [] \<Longrightarrow> \<not> startsWith (hd (drop n B)) ''..''"
      using assms(3) unfolding segB by (meson hd_in_set in_set_dropD)
    then show ?thesis
      unfolding startsWith_join_dotdot [OF clean] by blast
  qed
  then show ?thesis
    unfolding checkFilesystem_absolute_cwd [OF assms(1,2)] list_ex_iff segB by simp
qed

lemma resolve_data: "resolve pcwd ''/data'' = Inr ''/data''"
  by (simp add: resolve_def)

lemma resolve_data_dotdot_foo: "resolve pcwd ''/data/..foo'' = Inr ''/data/..foo''"
  by (simp add: resolve_def)

lemma relative_data_dotdot_foo: "relative pcwd ''/data'' ''/data/..foo'' = Inr ''..foo''"
  by (simp add: relative_def resolve_data resolve_data_dotdot_foo segments_def)

lemma spec_contains_data_dotdot_foo: "spec_contains pcwd ''/data'' ''/data/..foo''"
  by (simp add: spec_contains_def resolve_data resolve_data_dotdot_foo segments_def)

lemma checkFilesystem_dotdot_foo:
  "Option.bind (filesystem perms) (action_paths action) = Some [''/data''] \<Longrightarrow>
   fst (checkFilesystem pcwd now perms action ''/data/..foo'' permName s) = Inr False"
  by (simp add: checkFilesystem_def resolve_data resolve_data_dotdot_foo relative_data_dotdot_foo
        startsWith_def)

text \<open>
  The checks on the inputs of the repository's own tests, and on a traversal out of
  the allowed root.
\<close>

lemma checkFileRead_tests:
  "fst (checkFileRead (Some ''/home/u'') ''t''
          \<lparr>filesystem = Some \<lparr>fs_read = Some [''/data/project''], fs_write = None, fs_delete = None\<rparr>,
           network = None, system = None\<rparr> ''/data/project/file.txt'' empty_store) = Inr True"
  "fst (checkFileRead (Some ''/home/u'') ''t''
          \<lparr>filesystem = Some \<lparr>fs_read = Some [''/data/project''], fs_write = None, fs_delete = None\<rparr>,
           network = None, system = None\<rparr> ''/data/project/sub/dir/file.txt'' empty_store) = Inr True"
  "fst (checkFileRead (Some ''/home/u'') ''t''
          \<lparr>filesystem = Some \<lparr>fs_read = Some [''/data/project''], fs_write = None, fs_delete = None\<rparr>,
           network = None, system = None\<rparr> ''/etc/passwd'' empty_store) = Inr False"
  "fst (checkFileRead (Some ''/home/u'') ''t''
          \<lparr>filesystem = Some \<lparr>fs_read = Some [''/data/project''], fs_write = None, fs_delete = None\<rparr>,
           network = None, system = None\<rparr> ''/data/other/file.txt'' empty_store) = Inr False"
  "fst (checkFileRead (Some ''/data/project'') ''t''
          \<lparr>filesystem = Some \<lparr>fs_read = Some [''/data/project''], fs_write = None, fs_delete = None\<rparr>,
           network = None, system = None\<rparr> ''../../etc/passwd'' empty_store) = Inr False"
  "fst (checkFileRead (Some ''/home/u'') ''t''
          \<lparr>filesystem = Some \<lparr>fs_read = Some [''/data/project''], fs_write = None, fs_delete = None\<rparr>,
           network = None, system = None\<rparr> ''/data/project/../../etc/passwd'' empty_store) = Inr False"
  by code_simp+

text \<open>
  Claim C1, at the input where the code departs from it. The allowed root is
  \<open>/data\<close> and the requested path is \<open>/data/..foo\<close>, a file of that directory
  whose name begins with two dots. Both are in canonical form already, and the root
  is a proper ancestor of the path, so the claim makes the check true. The code
  computes the relative path \<open>..foo\<close>, finds that it starts with the two characters
  \<open>..\<close>, and returns false, for each of the three actions.
\<close>

theorem checkFilesystem_denies_dotdot_name:
  "spec_contains pcwd ''/data'' ''/data/..foo'' \<and>
   fst (checkFileRead pcwd now
          \<lparr>filesystem = Some \<lparr>fs_read = Some [''/data''], fs_write = None, fs_delete = None\<rparr>,
           network = None, system = None\<rparr> ''/data/..foo'' s) = Inr False \<and>
   fst (checkFileWrite pcwd now
          \<lparr>filesystem = Some \<lparr>fs_read = None, fs_write = Some [''/data''], fs_delete = None\<rparr>,
           network = None, system = None\<rparr> ''/data/..foo'' s) = Inr False \<and>
   fst (checkFileDelete pcwd now
          \<lparr>filesystem = Some \<lparr>fs_read = None, fs_write = None, fs_delete = Some [''/data'']\<rparr>,
           network = None, system = None\<rparr> ''/data/..foo'' s) = Inr False"
  by (simp add: spec_contains_data_dotdot_foo checkFileRead_def checkFileWrite_def
        checkFileDelete_def checkFilesystem_dotdot_foo)

end
